theory Spec2Isabelle
  imports Complex_Main "HOL-Library.Word"
begin

section \<open>The LC29H(DA) NMEA relay (\<open>_node_version/app.js\<close>)\<close>

text \<open>
  The relay reads NMEA lines from a serial port, filters them and writes them to every
  connected TCP client; an NTRIP client writes RTCM correction chunks back to the serial
  port. The handlers of the event loop are modelled as functions from the state of the
  process to its next state. A JavaScript string is a \<open>string\<close> (NMEA is ASCII), an
  array is a list, \<open>null\<close> and \<open>undefined\<close> are \<open>None\<close>.
\<close>

subsection \<open>JavaScript string and array primitives\<close>

text \<open>\<open>s.substring(start, end)\<close>: both indices are clamped to the length and swapped
  when \<open>start > end\<close>.\<close>

definition substring :: "nat \<Rightarrow> nat \<Rightarrow> string \<Rightarrow> string" where
  "substring start fin s =
     (let a = min start (length s); b = min fin (length s)
      in take (max a b - min a b) (drop (min a b) s))"

text \<open>\<open>s.startsWith(p)\<close>.\<close>

definition startsWith :: "string \<Rightarrow> string \<Rightarrow> bool" where
  "startsWith s p = (take (length p) s = p)"

text \<open>\<open>s.split(',')\<close>: the fields between the commas; the empty string gives one empty
  field, a trailing comma a last empty field.\<close>

fun split :: "string \<Rightarrow> string list" where
  "split [] = [[]]"
| "split (c # cs) =
     (if c = CHR '','' then [] # split cs
      else (case split cs of [] \<Rightarrow> [[c]] | f # fs \<Rightarrow> (c # f) # fs))"

text \<open>\<open>xs.includes(x)\<close>.\<close>

definition array_includes :: "'a list \<Rightarrow> 'a \<Rightarrow> bool" where
  "array_includes xs x = (x \<in> set xs)"

text \<open>\<open>xs.indexOf(x)\<close>: the index of the first occurrence, \<open>-1\<close> when there is none.\<close>

fun indexOf_from :: "int \<Rightarrow> 'a list \<Rightarrow> 'a \<Rightarrow> int" where
  "indexOf_from i [] x = - 1"
| "indexOf_from i (y # ys) x = (if y = x then i else indexOf_from (i + 1) ys x)"

definition indexOf :: "'a list \<Rightarrow> 'a \<Rightarrow> int" where
  "indexOf xs x = indexOf_from 0 xs x"

text \<open>\<open>xs.splice(idx, 1)\<close> for an index \<open>idx \<ge> 0\<close>: the list without the element at
  \<open>idx\<close>. (The handlers call it only under \<open>idx !== -1\<close>.)\<close>

definition splice1 :: "int \<Rightarrow> 'a list \<Rightarrow> 'a list" where
  "splice1 idx xs = take (nat idx) xs @ drop (nat idx + 1) xs"

subsection \<open>JavaScript numbers, \<open>parseInt\<close> and \<open>parseFloat\<close>\<close>

text \<open>
  A JavaScript number is an IEEE 754 double: \<open>NaN\<close>, an infinity, or a finite double,
  which is a rational \<open>m * 2^e\<close> with \<open>\<bar>m\<bar> < 2^53\<close> and \<open>-1074 \<le> e \<le> 971\<close>. \<open>Num v\<close> carries
  the value of a finite double. The two zeros are one value here: no operation of the
  program tells them apart.
\<close>

datatype jsnum = NaN | PosInf | NegInf | Num rat

text \<open>The number of binary digits of a natural number.\<close>

fun bits :: "nat \<Rightarrow> nat" where
  "bits n = (if n = 0 then 0 else Suc (bits (n div 2)))"

declare bits.simps [simp del]

definition pow2 :: "int \<Rightarrow> rat" where
  "pow2 e = (if 0 \<le> e then 2 ^ nat e else 1 / 2 ^ nat (- e))"

text \<open>Rounding to the nearest integer, a tie to the even one.\<close>

definition roundTiesToEven :: "rat \<Rightarrow> int" where
  "roundTiesToEven y =
     (let f = \<lfloor>y\<rfloor>; r = y - of_int f
      in if r < 1 / 2 then f else if 1 / 2 < r then f + 1 else if even f then f else f + 1)"

text \<open>The exponent of the unit in the last place at \<open>a > 0\<close>: \<open>a / 2^e\<close> lies between
  \<open>2^52\<close> and \<open>2^53\<close>, unless \<open>a\<close> is subnormal, where the exponent stays \<open>-1074\<close>.\<close>

definition ulp_exponent :: "rat \<Rightarrow> int" where
  "ulp_exponent a =
     max (- 1074)
       (if 1 \<le> a then int (bits (nat \<lfloor>a\<rfloor>)) - 53 else - int (bits (nat \<lfloor>1 / a\<rfloor>)) - 52)"

text \<open>The double nearest to a rational, ties to even (the rounding of every arithmetic
  operation and of every numeric literal); what rounds to \<open>2^1024\<close> or beyond overflows to
  an infinity.\<close>

definition to_double :: "rat \<Rightarrow> jsnum" where
  "to_double x =
     (if x = 0 then Num 0
      else
        let a = \<bar>x\<bar>;
            e = ulp_exponent a;
            v = of_int (roundTiesToEven (a / pow2 e)) * pow2 e
        in if 2 ^ 1024 \<le> v then (if 0 < x then PosInf else NegInf)
           else Num (if 0 < x then v else - v))"

fun js_neg :: "jsnum \<Rightarrow> jsnum" where
  "js_neg NaN = NaN"
| "js_neg PosInf = NegInf"
| "js_neg NegInf = PosInf"
| "js_neg (Num a) = Num (- a)"

fun js_add :: "jsnum \<Rightarrow> jsnum \<Rightarrow> jsnum" where
  "js_add NaN y = NaN"
| "js_add x NaN = NaN"
| "js_add PosInf NegInf = NaN"
| "js_add NegInf PosInf = NaN"
| "js_add PosInf y = PosInf"
| "js_add NegInf y = NegInf"
| "js_add x PosInf = PosInf"
| "js_add x NegInf = NegInf"
| "js_add (Num a) (Num b) = to_double (a + b)"

text \<open>Multiplication and division by a finite, non-zero constant \<open>c\<close> (the program
  divides by \<open>60\<close> and multiplies by \<open>-1\<close>).\<close>

fun js_mul_const :: "jsnum \<Rightarrow> rat \<Rightarrow> jsnum" where
  "js_mul_const NaN c = NaN"
| "js_mul_const PosInf c = (if 0 < c then PosInf else NegInf)"
| "js_mul_const NegInf c = (if 0 < c then NegInf else PosInf)"
| "js_mul_const (Num a) c = to_double (a * c)"

fun js_div_const :: "jsnum \<Rightarrow> rat \<Rightarrow> jsnum" where
  "js_div_const NaN c = NaN"
| "js_div_const PosInf c = (if 0 < c then PosInf else NegInf)"
| "js_div_const NegInf c = (if 0 < c then NegInf else PosInf)"
| "js_div_const (Num a) c = to_double (a / c)"

definition isWhiteSpace :: "char \<Rightarrow> bool" where
  "isWhiteSpace c = (c \<in> set [CHR 0x09, CHR 0x0A, CHR 0x0B, CHR 0x0C, CHR 0x0D, CHR 0x20, CHR 0xA0])"

definition isDigit :: "char \<Rightarrow> bool" where
  "isDigit c = (c \<in> set ''0123456789'')"

definition digitVal :: "char \<Rightarrow> nat" where
  "digitVal c = of_char c - 48"

definition digitsVal :: "string \<Rightarrow> nat" where
  "digitsVal ds = foldl (\<lambda>a c. 10 * a + digitVal c) 0 ds"

text \<open>The sign prefix of a numeric string: whether it is negative, and the rest.\<close>

definition signOf :: "string \<Rightarrow> bool \<times> string" where
  "signOf s =
     (case s of
        [] \<Rightarrow> (False, [])
      | c # cs \<Rightarrow> if c = CHR ''-'' then (True, cs) else if c = CHR ''+'' then (False, cs) else (False, s))"

text \<open>\<open>parseInt(str, 10)\<close>: leading white space is skipped, then an optional sign, then
  the longest run of decimal digits; \<open>NaN\<close> when there is no digit, else the double nearest
  to the integer.\<close>

definition parseInt :: "string \<Rightarrow> jsnum" where
  "parseInt str =
     (let (neg, S) = signOf (dropWhile isWhiteSpace str);
          Z = takeWhile isDigit S
      in if Z = [] then NaN
         else to_double (if neg then - of_nat (digitsVal Z) else of_nat (digitsVal Z)))"

text \<open>The exponent part \<open>e\<close>/\<open>E\<close>, optional sign, digits: its value, \<open>0\<close> when the
  string does not start with a complete exponent part.\<close>

definition exponentOf :: "string \<Rightarrow> int" where
  "exponentOf s =
     (case s of
        [] \<Rightarrow> 0
      | c # cs \<Rightarrow>
          if c = CHR ''e'' \<or> c = CHR ''E'' then
            (let (neg, r) = signOf cs; ds = takeWhile isDigit r
             in if ds = [] then 0
                else if neg then - int (digitsVal ds) else int (digitsVal ds))
          else 0)"

text \<open>The longest prefix that is an unsigned decimal literal of the \<open>parseFloat\<close>
  grammar: \<open>Infinity\<close>, or digits with an optional fraction and exponent, or a fraction
  that starts with the point; its value is the double nearest to the decimal value.\<close>

definition parseUnsigned :: "string \<Rightarrow> jsnum" where
  "parseUnsigned s =
     (if startsWith s ''Infinity'' then PosInf
      else
        let ip = takeWhile isDigit s;
            r1 = dropWhile isDigit s;
            point = (r1 \<noteq> [] \<and> hd r1 = CHR ''.'');
            fp = (if point then takeWhile isDigit (tl r1) else []);
            r2 = (if point then dropWhile isDigit (tl r1) else r1)
        in if ip = [] \<and> fp = [] then NaN
           else
             let m = of_nat (digitsVal ip) + of_nat (digitsVal fp) / 10 ^ length fp;
                 e = exponentOf r2
             in to_double (if 0 \<le> e then m * 10 ^ nat e else m / 10 ^ nat (- e)))"

definition parseFloat :: "string \<Rightarrow> jsnum" where
  "parseFloat str =
     (let (neg, S) = signOf (dropWhile isWhiteSpace str);
          v = parseUnsigned S
      in if neg then js_neg v else v)"

subsection \<open>Configuration from the environment\<close>

text \<open>The variables of \<open>process.env\<close> the relay reads; an unset variable is \<open>None\<close>.\<close>

record environment =
  env_TCP_ALLOW :: "string option"
  env_TCP_ONLY_RTK_FIXED :: "string option"
  env_TCP_MAX_CLIENTS :: "string option"

text \<open>\<open>process.env.TCP_ALLOW || 'RMC,VTG,GGA'\<close>: the empty string is falsy.\<close>

definition TCP_ALLOW :: "environment \<Rightarrow> string" where
  "TCP_ALLOW env =
     (case env_TCP_ALLOW env of
        None \<Rightarrow> ''RMC,VTG,GGA''
      | Some v \<Rightarrow> if v = [] then ''RMC,VTG,GGA'' else v)"

definition TCP_ALLOW_LIST :: "environment \<Rightarrow> string list" where
  "TCP_ALLOW_LIST env = split (TCP_ALLOW env)"

definition TCP_ONLY_RTK_FIXED :: "environment \<Rightarrow> bool" where
  "TCP_ONLY_RTK_FIXED env = (env_TCP_ONLY_RTK_FIXED env = Some ''true'')"


subsection \<open>Parsing a GGA sentence\<close>

text \<open>The object \<open>parseGGA\<close> returns (its field \<open>fix\<close> is \<open>fix'\<close> here); the handler
  adds \<open>raw\<close> afterwards.\<close>

record gga =
  lat :: "jsnum option"
  lon :: "jsnum option"
  fix' :: string
  time :: string
  sats :: jsnum
  raw :: "string option"

definition parseNmeaCoord :: "string \<Rightarrow> string \<Rightarrow> jsnum option" where
  "parseNmeaCoord coord dir =
     (if coord = [] \<or> length coord < 4 then None
      else
        let n = (if dir = ''N'' \<or> dir = ''S'' then 2 else 3);
            deg = parseInt (take n coord);
            min' = parseFloat (drop n coord);
            val = js_add deg (js_div_const min' 60)
        in Some (if dir = ''S'' \<or> dir = ''W'' then js_mul_const val (- 1) else val))"

definition parseGGA :: "string \<Rightarrow> gga option" where
  "parseGGA sentence =
     (let parts = split sentence
      in if length parts < 15 then None
         else Some \<lparr> lat = parseNmeaCoord (parts ! 2) (parts ! 3),
                     lon = parseNmeaCoord (parts ! 4) (parts ! 5),
                     fix' = parts ! 6,
                     time = parts ! 1,
                     sats = parseInt (parts ! 7),
                     raw = None \<rparr>)"

subsection \<open>The state of the process\<close>

text \<open>
  A socket object is identified by its reference; \<open>sockets\<close> is the store of the socket
  objects, \<open>clients\<close> the array of references. \<open>sent\<close> lists what was written to a socket.
\<close>

type_synonym sock = nat

record socket =
  writable :: bool
  sent :: "string list"

datatype log_entry =
    NtripConnectionFailed int string
  | NtripConnectionEstablished
  | NtripStreamEnded

record relay =
  clients :: "sock list"
  latestGGA :: "gga option"
  sockets :: "sock \<Rightarrow> socket"
  serial_written :: "8 word list list"
  log :: "log_entry list"

subsection \<open>The TCP server\<close>

text \<open>The connection listener of \<open>net.createServer\<close>: \<open>clients.push(socket)\<close>.\<close>

definition connection :: "relay \<Rightarrow> sock \<Rightarrow> relay" where
  "connection st s = st\<lparr>clients := clients st @ [s]\<rparr>"


text \<open>\<open>const idx = clients.indexOf(socket); if (idx !== -1) clients.splice(idx, 1);\<close>\<close>

definition remove_client :: "sock list \<Rightarrow> sock \<Rightarrow> sock list" where
  "remove_client cs s = (let idx = indexOf cs s in if idx \<noteq> - 1 then splice1 idx cs else cs)"

text \<open>\<open>socket.destroy()\<close>: the socket is no longer writable.\<close>

definition destroy :: "(sock \<Rightarrow> socket) \<Rightarrow> sock \<Rightarrow> (sock \<Rightarrow> socket)" where
  "destroy h s = h(s := (h s)\<lparr>writable := False\<rparr>)"

text \<open>The \<open>'error'\<close> and \<open>'close'\<close> listeners of a socket.\<close>

definition socket_error :: "relay \<Rightarrow> sock \<Rightarrow> relay" where
  "socket_error st s =
     st\<lparr>clients := remove_client (clients st) s, sockets := destroy (sockets st) s\<rparr>"

definition socket_close :: "relay \<Rightarrow> sock \<Rightarrow> relay" where
  "socket_close st s = st\<lparr>clients := remove_client (clients st) s\<rparr>"





text \<open>\<open>clients.forEach(socket => { if (socket.writable) socket.write(msg); })\<close>\<close>

definition socket_write :: "socket \<Rightarrow> string \<Rightarrow> socket" where
  "socket_write so msg = so\<lparr>sent := sent so @ [msg]\<rparr>"

definition forEach_write :: "sock list \<Rightarrow> string \<Rightarrow> (sock \<Rightarrow> socket) \<Rightarrow> (sock \<Rightarrow> socket)" where
  "forEach_write cs msg h =
     foldl (\<lambda>h s. if writable (h s) then h(s := socket_write (h s) msg) else h) h cs"

subsection \<open>The \<open>'data'\<close> listener of the serial stream\<close>

text \<open>The two tests of the \<open>TCP_ONLY_RTK_FIXED\<close> block: whether one of them returns.\<close>

definition rtk_gate_returns :: "string \<Rightarrow> bool" where
  "rtk_gate_returns data =
     (((startsWith data ''$GNGGA'' \<or> startsWith data ''$GPGGA'') \<and>
         (let fields = split data in 6 < length fields \<and> fields ! 6 \<noteq> ''4''))
      \<or> ((startsWith data ''$GNRMC'' \<or> startsWith data ''$GPRMC'') \<and>
         (let fields = split data in 12 < length fields \<and> fields ! 12 \<noteq> ''R'')))"

definition NMEA_SUFFIX :: "string \<Rightarrow> string" where
  "NMEA_SUFFIX data = substring 3 6 (substring 0 6 data)"

definition track_gga :: "relay \<Rightarrow> string \<Rightarrow> relay" where
  "track_gga st data =
     (if startsWith data ''$GPGGA'' \<or> startsWith data ''$GNGGA'' then
        (case parseGGA data of
           None \<Rightarrow> st
         | Some g \<Rightarrow> st\<lparr>latestGGA := Some (g\<lparr>raw := Some data\<rparr>)\<rparr>)
      else st)"

definition serial_data :: "environment \<Rightarrow> relay \<Rightarrow> string \<Rightarrow> relay" where
  "serial_data env st data =
     (if \<not> array_includes (TCP_ALLOW_LIST env) (NMEA_SUFFIX data) then st
      else
        let st1 = track_gga st data
        in if TCP_ONLY_RTK_FIXED env \<and> rtk_gate_returns data then st1
           else st1\<lparr>sockets := forEach_write (clients st1) (data @ ''\<newline>'') (sockets st1)\<rparr>)"

text \<open>The lines of the serial stream, one \<open>'data'\<close> event each, in order.\<close>

definition serial_lines :: "environment \<Rightarrow> relay \<Rightarrow> string list \<Rightarrow> relay" where
  "serial_lines env st ds = foldl (serial_data env) st ds"

subsection \<open>The NTRIP client\<close>

text \<open>The response callback of \<open>startNtripStream\<close>. A status other than 200 is logged
  and the response is discarded (\<open>res.resume()\<close>, then \<open>return\<close>); on 200 the callback
  attaches the \<open>'data'\<close> listener to the response. The result says whether the listener
  is attached.\<close>

definition ntrip_response :: "relay \<Rightarrow> int \<Rightarrow> string \<Rightarrow> relay \<times> bool" where
  "ntrip_response st statusCode statusMessage =
     (if statusCode \<noteq> 200 then
        (st\<lparr>log := log st @ [NtripConnectionFailed statusCode statusMessage]\<rparr>, False)
      else (st\<lparr>log := log st @ [NtripConnectionEstablished]\<rparr>, True))"

text \<open>The \<open>'data'\<close> listener: \<open>serial_port.write(chunk)\<close>.\<close>

definition res_data :: "relay \<Rightarrow> 8 word list \<Rightarrow> relay" where
  "res_data st chunk = st\<lparr>serial_written := serial_written st @ [chunk]\<rparr>"

text \<open>The \<open>'end'\<close> listener only logs.\<close>

definition res_end :: "relay \<Rightarrow> relay" where
  "res_end st = st\<lparr>log := log st @ [NtripStreamEnded]\<rparr>"

text \<open>A whole response: the callback, then the chunks of the body in order, each given to
  the \<open>'data'\<close> listener when there is one.\<close>

definition ntrip_stream :: "relay \<Rightarrow> int \<Rightarrow> string \<Rightarrow> 8 word list list \<Rightarrow> relay" where
  "ntrip_stream st statusCode statusMessage chunks =
     (let (st1, listening) = ntrip_response st statusCode statusMessage
      in if listening then foldl res_data st1 chunks else st1)"

subsection \<open>Concrete configurations and states for the examples\<close>

text \<open>No variable set: the defaults. \<open>rtk_env\<close> sets \<open>TCP_ONLY_RTK_FIXED=true\<close>.\<close>

definition default_env :: environment where
  "default_env =
     \<lparr> env_TCP_ALLOW = None, env_TCP_ONLY_RTK_FIXED = None, env_TCP_MAX_CLIENTS = None \<rparr>"

definition rtk_env :: environment where
  "rtk_env = default_env\<lparr>env_TCP_ONLY_RTK_FIXED := Some ''true''\<rparr>"

text \<open>A state with the writable clients \<open>1\<close> and \<open>2\<close>, to which nothing was written yet,
  and no fix.\<close>

definition two_clients :: relay where
  "two_clients =
     \<lparr> clients = [1, 2], latestGGA = None,
       sockets = (\<lambda>s. \<lparr> writable = True, sent = [] \<rparr>),
       serial_written = [], log = [] \<rparr>"


section \<open>Properties of the model\<close>

subsection \<open>Properties of the primitives\<close>

lemma NMEA_SUFFIX_take_drop: "NMEA_SUFFIX data = take 3 (drop 3 data)"
  by (simp add: NMEA_SUFFIX_def substring_def Let_def min_def max_def take_drop)

lemma startsWith_suffix:
  assumes "startsWith data [a, b, c, d, e, f]"
  shows "NMEA_SUFFIX data = [d, e, f]"
proof -
  have len: "length [a, b, c, d, e, f] = 6"
    by simp
  have "take 3 (drop 3 data) = drop 3 (take 6 data)"
    by (simp add: drop_take)
  moreover from assms have "take 6 data = [a, b, c, d, e, f]"
    unfolding startsWith_def len .
  ultimately show ?thesis
    by (simp add: NMEA_SUFFIX_take_drop)
qed

lemma split_not_Nil: "split s \<noteq> []"
  by (induction s) (auto split: list.splits)

lemma split_no_comma: "f \<in> set (split s) \<Longrightarrow> CHR '','' \<notin> set f"
proof (induction s arbitrary: f)
  case Nil
  then show ?case by simp
next
  case (Cons c cs)
  show ?case
  proof (cases "c = CHR '',''")
    case True
    with Cons show ?thesis by auto
  next
    case False
    obtain g gs where gs: "split cs = g # gs"
      using split_not_Nil [of cs] by (cases "split cs") auto
    with False Cons.prems have "f = c # g \<or> f \<in> set gs"
      by simp
    then show ?thesis
    proof
      assume "f = c # g"
      with False Cons.IH [of g] gs show ?thesis by simp
    next
      assume "f \<in> set gs"
      with Cons.IH [of f] gs show ?thesis by simp
    qed
  qed
qed

lemma indexOf_from_notin: "x \<notin> set xs \<Longrightarrow> indexOf_from i xs x = - 1"
  by (induction xs arbitrary: i) auto

lemma indexOf_from_in:
  "x \<in> set xs \<Longrightarrow> 0 \<le> i \<Longrightarrow>
     i \<le> indexOf_from i xs x \<and>
     take (nat (indexOf_from i xs x - i)) xs @ drop (nat (indexOf_from i xs x - i) + 1) xs
       = remove1 x xs"
proof (induction xs arbitrary: i)
  case Nil
  then show ?case by simp
next
  case (Cons y ys)
  show ?case
  proof (cases "y = x")
    case True
    then show ?thesis by simp
  next
    case False
    with Cons.prems have mem: "x \<in> set ys" by simp
    from Cons.prems have pos: "0 \<le> i + 1" by simp
    from Cons.IH [OF mem pos]
    have le: "i + 1 \<le> indexOf_from (i + 1) ys x"
      and eq: "take (nat (indexOf_from (i + 1) ys x - (i + 1))) ys
                @ drop (nat (indexOf_from (i + 1) ys x - (i + 1)) + 1) ys = remove1 x ys"
      by simp_all
    have n: "nat (indexOf_from (i + 1) ys x - i)
               = Suc (nat (indexOf_from (i + 1) ys x - (i + 1)))"
      using le by simp
    show ?thesis using False le eq n by simp
  qed
qed

text \<open>The removal the \<open>'error'\<close> and \<open>'close'\<close> listeners do is \<open>remove1\<close>.\<close>

lemma remove_client_remove1: "remove_client cs s = remove1 s cs"
proof (cases "s \<in> set cs")
  case True
  from indexOf_from_in [OF True, of 0]
  show ?thesis by (simp add: remove_client_def indexOf_def splice1_def Let_def)
next
  case False
  then show ?thesis
    by (simp add: remove_client_def indexOf_def indexOf_from_notin remove1_idem)
qed

text \<open>What the \<open>forEach\<close> of a broadcast does to one socket of the store.\<close>

lemma forEach_write_notin: "s \<notin> set cs \<Longrightarrow> forEach_write cs msg h s = h s"
  unfolding forEach_write_def
  by (induction cs arbitrary: h) auto

lemma forEach_write_distinct:
  "distinct cs \<Longrightarrow>
   forEach_write cs msg h s =
     (if s \<in> set cs \<and> writable (h s) then socket_write (h s) msg else h s)"
proof (induction cs arbitrary: h)
  case Nil
  then show ?case by (simp add: forEach_write_def)
next
  case (Cons c cs)
  let ?h = "if writable (h c) then h(c := socket_write (h c) msg) else h"
  have step: "forEach_write (c # cs) msg h = forEach_write cs msg ?h"
    by (simp add: forEach_write_def)
  from Cons.prems have d: "distinct cs" and c: "c \<notin> set cs" by simp_all
  show ?case
  proof (cases "s = c")
    case True
    then show ?thesis using c step forEach_write_notin [of c cs msg ?h] by simp
  next
    case False
    then show ?thesis using step Cons.IH [OF d, of ?h] by simp
  qed
qed

subsection \<open>Properties of the serial \<open>'data'\<close> listener\<close>

lemma track_gga_clients:
  "clients (track_gga st data) = clients st"
  "sockets (track_gga st data) = sockets st"
  by (simp_all add: track_gga_def split: option.splits)

lemma serial_data_dropped:
  "\<not> array_includes (TCP_ALLOW_LIST env) (NMEA_SUFFIX data) \<Longrightarrow> serial_data env st data = st"
  by (simp add: serial_data_def)

lemma serial_data_clients: "clients (serial_data env st data) = clients st"
  by (simp add: serial_data_def Let_def track_gga_clients)

text \<open>The store after a line: the broadcast happens exactly when the type is allowed and the
  RTK block does not return.\<close>

lemma serial_data_sockets:
  "sockets (serial_data env st data) =
     (if array_includes (TCP_ALLOW_LIST env) (NMEA_SUFFIX data) \<and>
         \<not> (TCP_ONLY_RTK_FIXED env \<and> rtk_gate_returns data)
      then forEach_write (clients st) (data @ ''\<newline>'') (sockets st) else sockets st)"
  by (simp add: serial_data_def Let_def track_gga_clients)

lemma default_allow: "TCP_ALLOW_LIST default_env = [''RMC'', ''VTG'', ''GGA'']"
  by (simp add: TCP_ALLOW_LIST_def TCP_ALLOW_def default_env_def)

lemma default_env_config:
  "set (TCP_ALLOW_LIST default_env) = {''GGA'', ''RMC'', ''VTG''} \<and> \<not> TCP_ONLY_RTK_FIXED default_env"
proof
  show "set (TCP_ALLOW_LIST default_env) = {''GGA'', ''RMC'', ''VTG''}"
    unfolding default_allow by auto
  show "\<not> TCP_ONLY_RTK_FIXED default_env"
    by (simp add: TCP_ONLY_RTK_FIXED_def default_env_def)
qed

subsection \<open>Lines that do not start with \<open>$\<close>\<close>

lemma startsWith_Cons: "startsWith data (c # p) \<Longrightarrow> startsWith data [c]"
  by (cases data) (simp_all add: startsWith_def)

lemma gate_off:
  "\<not> TCP_ONLY_RTK_FIXED (env\<lparr>env_TCP_ONLY_RTK_FIXED := None\<rparr>)"
  "TCP_ALLOW_LIST (env\<lparr>env_TCP_ONLY_RTK_FIXED := v\<rparr>) = TCP_ALLOW_LIST env"
  by (simp_all add: TCP_ONLY_RTK_FIXED_def TCP_ALLOW_LIST_def TCP_ALLOW_def)

lemma example_envs:
  "\<not> TCP_ONLY_RTK_FIXED default_env"
  "TCP_ONLY_RTK_FIXED rtk_env"
  "TCP_ALLOW_LIST rtk_env = [''RMC'', ''VTG'', ''GGA'']"
  by (simp_all add: rtk_env_def gate_off default_allow)
     (simp_all add: TCP_ONLY_RTK_FIXED_def default_env_def)

lemma not_dollar_track: "\<not> startsWith data ''$'' \<Longrightarrow> track_gga st data = st"
  using startsWith_Cons [of data "CHR ''$''"] by (auto simp add: track_gga_def)

lemma not_dollar_gate: "\<not> startsWith data ''$'' \<Longrightarrow> \<not> rtk_gate_returns data"
  using startsWith_Cons [of data "CHR ''$''"] by (auto simp add: rtk_gate_returns_def)

subsection \<open>Doubles\<close>

lemma bits_numeral:
  "bits 0 = 0" "bits 1 = 1" "bits (Suc 0) = 1"
  "bits (numeral (Num.Bit0 n)) = Suc (bits (numeral n))"
  "bits (numeral (Num.Bit1 n)) = Suc (bits (numeral n))"
  "bits (numeral Num.One) = 1"
proof -
  show "bits 0 = 0" by (simp add: bits.simps)
  show a: "bits 1 = 1" by (subst bits.simps) (simp add: bits.simps [of 0])
  then show "bits (Suc 0) = 1" by simp
  have "numeral (Num.Bit0 n) div 2 = (numeral n :: nat)" by simp
  then show "bits (numeral (Num.Bit0 n)) = Suc (bits (numeral n))"
    by (subst bits.simps) simp
  have "numeral (Num.Bit1 n) div 2 = (numeral n :: nat)" by simp
  then show "bits (numeral (Num.Bit1 n)) = Suc (bits (numeral n))"
    by (subst bits.simps) simp
  show "bits (numeral Num.One) = 1" using a by simp
qed

lemma floor_rat_numeral:
  "\<lfloor>numeral a / numeral b :: rat\<rfloor> = numeral a div numeral b"
  "\<lfloor>1 / numeral b :: rat\<rfloor> = 1 div numeral b"
  using floor_divide_of_int_eq [of "numeral a" "numeral b", where ?'a = rat]
    floor_divide_of_int_eq [of 1 "numeral b", where ?'a = rat]
  by simp_all

lemma bits_bounds: "0 < n \<Longrightarrow> 2 ^ (bits n - 1) \<le> n \<and> n < 2 ^ bits n"
proof (induction n rule: bits.induct)
  case (1 n)
  show ?case
  proof (cases "n div 2 = 0")
    case True
    with "1.prems" have "n = 1" by (simp add: div_eq_0_iff) 
    then show ?thesis by (simp add: bits_numeral)
  next
    case False
    then have pos: "0 < n div 2" by simp
    from "1.prems" have n0: "n \<noteq> 0" by simp
    from "1.IH" [OF n0 pos] have lo: "2 ^ (bits (n div 2) - 1) \<le> n div 2"
      and hi: "n div 2 < 2 ^ bits (n div 2)" by simp_all
    have b: "bits n = Suc (bits (n div 2))"
      using n0 by (subst bits.simps) simp
    have bpos: "0 < bits (n div 2)"
      using pos by (subst bits.simps) simp
    have "2 ^ (bits n - 1) = 2 * 2 ^ (bits (n div 2) - 1)"
      using b bpos by (cases "bits (n div 2)") simp_all
    also have "\<dots> \<le> 2 * (n div 2)" using lo by simp
    also have "\<dots> \<le> n" by simp
    finally have l: "2 ^ (bits n - 1) \<le> n" .
    have "n < 2 * (n div 2) + 2" by presburger
    also have "\<dots> \<le> 2 * 2 ^ bits (n div 2)" using hi by simp
    finally have "n < 2 ^ bits n" using b by simp
    with l show ?thesis ..
  qed
qed

lemma bits_pos: "0 < n \<Longrightarrow> 0 < bits n"
  by (subst bits.simps) simp

lemma round_error: "\<bar>of_int (roundTiesToEven y) - y\<bar> \<le> 1 / 2"
proof -
  have "of_int \<lfloor>y\<rfloor> \<le> y" "y < of_int \<lfloor>y\<rfloor> + 1"
    by linarith+
  then show ?thesis
    by (auto simp add: roundTiesToEven_def Let_def)
qed

lemma round_of_int: "roundTiesToEven (of_int k) = k"
  by (simp add: roundTiesToEven_def)

lemma round_le: "y \<le> of_int N \<Longrightarrow> roundTiesToEven y \<le> N"
proof -
  assume a: "y \<le> of_int N"
  then have "\<lfloor>y\<rfloor> \<le> \<lfloor>of_int N :: rat\<rfloor>" by (rule floor_mono)
  then have f: "\<lfloor>y\<rfloor> \<le> N" by simp
  show ?thesis
  proof (cases "\<lfloor>y\<rfloor> = N")
    case True
    then have "y = of_int N" using a by linarith
    then show ?thesis by (simp add: round_of_int)
  next
    case False
    with f have "\<lfloor>y\<rfloor> + 1 \<le> N" by simp
    then show ?thesis using f by (auto simp add: roundTiesToEven_def Let_def)
  qed
qed

lemma round_nonneg: "0 \<le> y \<Longrightarrow> 0 \<le> roundTiesToEven y"
proof -
  assume "0 \<le> y"
  then have "0 \<le> \<lfloor>y\<rfloor>" by simp
  then show ?thesis by (auto simp add: roundTiesToEven_def Let_def)
qed

lemma pow2_powi: "pow2 e = 2 powi e"
  by (simp add: pow2_def power_int_def power_one_over inverse_eq_divide)

lemma pow2_pos: "0 < pow2 e"
  by (simp add: pow2_def)

lemma pow2_add: "pow2 (a + b) = pow2 a * pow2 b"
  unfolding pow2_powi by (rule power_int_add) simp

lemma pow2_mono: "a \<le> b \<Longrightarrow> pow2 a \<le> pow2 b"
  unfolding pow2_powi by (rule power_int_increasing) simp_all

lemma pow2_nat: "pow2 (int k) = 2 ^ k"
  by (simp add: pow2_def)


lemma ulp_exponent_bounds:
  assumes "0 < a" "a < 2 ^ k"
  shows "ulp_exponent a \<le> int k - 53" and "a / pow2 (ulp_exponent a) \<le> 2 ^ 53"
    and "- 1074 \<le> ulp_exponent a"
proof -
  show "- 1074 \<le> ulp_exponent a"
    by (simp add: ulp_exponent_def)
  have both: "ulp_exponent a \<le> int k - 53 \<and> a / pow2 (ulp_exponent a) \<le> 2 ^ 53"
  proof (cases "1 \<le> a")
    case True
    let ?n = "nat \<lfloor>a\<rfloor>"
    let ?b = "bits ?n"
    from True have fl: "1 \<le> \<lfloor>a\<rfloor>" by simp
    then have n: "0 < ?n" by simp
    note bb = bits_bounds [OF n]
    have bpos: "0 < ?b" using n by (rule bits_pos)
    have "of_int \<lfloor>a\<rfloor> \<le> a" "a < of_int \<lfloor>a\<rfloor> + 1"
      by linarith+
    then have na: "of_nat ?n \<le> a" "a < of_nat ?n + 1"
      using fl by (simp_all add: of_nat_nat)
    have "(2::rat) ^ (?b - 1) \<le> of_nat ?n"
      using conjunct1 [OF bb] by (metis of_nat_le_iff of_nat_numeral of_nat_power)
    with na assms have "(2::rat) ^ (?b - 1) < 2 ^ k" by linarith
    then have "?b - 1 < k" by simp
    with bpos have bk: "?b \<le> k" by simp
    have "of_nat ?n + 1 \<le> (2::rat) ^ ?b"
    proof -
      from bb have "?n < 2 ^ ?b" by (rule conjunct2)
      then have "Suc ?n \<le> 2 ^ ?b" by (rule Suc_leI)
      then have "of_nat (Suc ?n) \<le> (of_nat (2 ^ ?b) :: rat)" by (simp only: of_nat_le_iff)
      then show ?thesis by simp
    qed
    with na have hi: "a < 2 ^ ?b" by linarith
    have e: "ulp_exponent a = int ?b - 53"
      using True bpos by (simp add: ulp_exponent_def)
    have "pow2 (int ?b) = pow2 (int ?b - 53) * pow2 53"
      using pow2_add [of "int ?b - 53" 53] by simp
    then have "2 ^ ?b = pow2 (int ?b - 53) * 2 ^ 53"
      by (simp add: pow2_nat) (simp add: pow2_def)
    with hi have "a < pow2 (int ?b - 53) * 2 ^ 53" by simp
    then have "a / pow2 (int ?b - 53) < 2 ^ 53"
      using pow2_pos [of "int ?b - 53"] by (simp add: pos_divide_less_eq mult.commute)
    with e bk show ?thesis by simp
  next
    case False
    let ?n = "nat \<lfloor>1 / a\<rfloor>"
    let ?b = "bits ?n"
    from False assms have inv: "1 < 1 / a" by simp
    then have fl: "1 \<le> \<lfloor>1 / a\<rfloor>" by simp
    then have n: "0 < ?n" by simp
    note bb = bits_bounds [OF n]
    have bpos: "0 < ?b" using n by (rule bits_pos)
    have "0 \<le> \<lfloor>1 / a\<rfloor>"
      using fl by linarith
    then have "(of_nat ?n :: rat) = of_int \<lfloor>1 / a\<rfloor>"
      by (rule of_nat_nat)
    moreover have "of_int \<lfloor>1 / a\<rfloor> \<le> 1 / a"
      by (rule of_int_floor_le)
    ultimately have na: "of_nat ?n \<le> 1 / a"
      by (simp only:)
    have lo: "(2::rat) ^ (?b - 1) \<le> of_nat ?n"
      using conjunct1 [OF bb] by (metis of_nat_le_iff of_nat_numeral of_nat_power)
    with na have "(2::rat) ^ (?b - 1) \<le> 1 / a" by linarith
    then have "a * 2 ^ (?b - 1) \<le> 1"
      using assms(1) by (simp add: pos_le_divide_eq mult.commute)
    let ?e0 = "- int ?b - 52"
    have e: "ulp_exponent a = max (- 1074) ?e0"
      using False by (simp add: ulp_exponent_def)
    have le: "ulp_exponent a \<le> int k - 53"
      unfolding e using bpos by simp
    have "pow2 ?e0 * 2 ^ 53 * 2 ^ (?b - 1) = pow2 ?e0 * pow2 (int ?b + 52)"
    proof -
      have idx: "53 + (?b - 1) = ?b + 52"
        using bpos by simp
      have "(2::rat) ^ 53 * 2 ^ (?b - 1) = 2 ^ (53 + (?b - 1))"
        by (rule power_add [symmetric])
      then have "(2::rat) ^ 53 * 2 ^ (?b - 1) = 2 ^ (?b + 52)"
        by (simp only: idx)
      also have "\<dots> = pow2 (int ?b + 52)"
        using pow2_nat [of "?b + 52"] by simp
      finally show ?thesis by (simp only: mult.assoc)
    qed
    also have "\<dots> = pow2 0"
      using pow2_add [of ?e0 "int ?b + 52"] by simp
    finally have one: "pow2 ?e0 * 2 ^ 53 * 2 ^ (?b - 1) = 1"
      by (simp add: pow2_def)
    have "a * 2 ^ (?b - 1) \<le> pow2 ?e0 * 2 ^ 53 * 2 ^ (?b - 1)"
      using \<open>a * 2 ^ (?b - 1) \<le> 1\<close> one by simp
    then have "a \<le> pow2 ?e0 * 2 ^ 53"
      by simp
    also have "\<dots> \<le> pow2 (ulp_exponent a) * 2 ^ 53"
      unfolding e using pow2_mono [of ?e0 "max (- 1074) ?e0"] by simp
    finally have "a / pow2 (ulp_exponent a) \<le> 2 ^ 53"
      using pow2_pos [of "ulp_exponent a"] by (simp add: pos_divide_le_eq mult.commute)
    with le show ?thesis by simp
  qed
  then show "ulp_exponent a \<le> int k - 53" and "a / pow2 (ulp_exponent a) \<le> 2 ^ 53"
    by simp_all
qed


lemma to_double_pos:
  assumes "0 < x" "ulp_exponent x = e" "roundTiesToEven (x / pow2 e) = m"
    and "of_int m * pow2 e = v" "v < 2 ^ 1024"
  shows "to_double x = Num v"
  using assms by (simp add: to_double_def Let_def)

lemma to_double_neg: "to_double (- x) = js_neg (to_double x)"
  by (cases "x = 0"; cases "0 < x") (simp_all add: to_double_def Let_def)

lemma to_double_round:
  assumes "0 \<le> x" "x < 2 ^ k" "k \<le> 1023"
  shows "\<exists>v. to_double x = Num v \<and> 0 \<le> v \<and> v \<le> 2 ^ k \<and> \<bar>v - x\<bar> \<le> 2 ^ k / 2 ^ 54"
proof (cases "x = 0")
  case True
  then show ?thesis by (simp add: to_double_def)
next
  case False
  with assms have pos: "0 < x" by simp
  let ?e = "ulp_exponent x"
  let ?y = "x / pow2 ?e"
  let ?m = "roundTiesToEven ?y"
  let ?v = "of_int ?m * pow2 ?e :: rat"
  note ub = ulp_exponent_bounds [OF pos assms(2)]
  have p: "0 < pow2 ?e" by (rule pow2_pos)
  have y0: "0 \<le> ?y" using pos p by simp
  have m0: "0 \<le> ?m" using y0 by (rule round_nonneg)
  have "?y \<le> of_int (2 ^ 53)" using ub(2) by simp
  then have m1: "?m \<le> 2 ^ 53" by (rule round_le)
  have v0: "0 \<le> ?v" using m0 p by simp
  have "?v \<le> 2 ^ 53 * pow2 ?e"
  proof -
    from m1 have "(of_int ?m :: rat) \<le> of_int (2 ^ 53)" by (simp only: of_int_le_iff)
    then have "(of_int ?m :: rat) \<le> 2 ^ 53" by simp
    then show ?thesis using p by (simp only: mult_le_cancel_right_pos)
  qed
  also have "\<dots> = pow2 (?e + 53)"
    using pow2_add [of ?e 53] pow2_nat [of 53] by (simp add: mult.commute)
  also have "\<dots> \<le> pow2 (int k)"
    using ub(1) by (intro pow2_mono) simp
  finally have vk: "?v \<le> 2 ^ k" by (simp add: pow2_nat)
  have "(2::rat) ^ k < 2 ^ 1024"
    by (rule power_strict_increasing) (use assms(3) in simp_all)
  with vk have fin: "?v < 2 ^ 1024" by linarith
  have td: "to_double x = Num ?v"
    using pos fin by (intro to_double_pos) simp_all
  have "?v - x = (of_int ?m - ?y) * pow2 ?e"
    using p by (simp add: algebra_simps)
  then have "\<bar>?v - x\<bar> = \<bar>of_int ?m - ?y\<bar> * pow2 ?e"
    using p by (simp add: abs_mult)
  also have "\<dots> \<le> (1 / 2) * pow2 ?e"
    using round_error [of ?y] p by (simp only: mult_le_cancel_right_pos)
  also have "\<dots> \<le> (1 / 2) * pow2 (int k - 53)"
    using pow2_mono [OF ub(1)] by simp
  also have "\<dots> = 2 ^ k / 2 ^ 54"
  proof -
    have "pow2 (int k) = pow2 (int k - 53) * pow2 53"
      using pow2_add [of "int k - 53" 53] by simp
    then have "pow2 (int k - 53) = 2 ^ k / 2 ^ 53"
      using pow2_nat [of k] pow2_nat [of 53] by (simp add: field_simps)
    then show ?thesis by simp
  qed
  finally have "\<bar>?v - x\<bar> \<le> 2 ^ k / 2 ^ 54" .
  with td v0 vk show ?thesis by blast
qed

lemma to_double_nat:
  assumes "n < 2 ^ 53"
  shows "to_double (of_nat n) = Num (of_nat n)"
proof (cases "n = 0")
  case True
  then show ?thesis by (simp add: to_double_def)
next
  case False
  then have n: "0 < n" by simp
  let ?b = "bits n"
  note bb = bits_bounds [OF n]
  have bpos: "0 < ?b" using n by (rule bits_pos)
  from conjunct1 [OF bb] assms have "(2::nat) ^ (?b - 1) < 2 ^ 53" by (rule le_less_trans)
  then have "?b - 1 < 53" by (rule power_less_imp_less_exp [rotated]) simp
  then have b53: "?b \<le> 53" by simp
  have pos: "0 < (of_nat n :: rat)" using n by simp
  have fl: "nat \<lfloor>of_nat n :: rat\<rfloor> = n" by simp
  have e: "ulp_exponent (of_nat n) = int ?b - 53"
    using n bpos by (simp add: ulp_exponent_def)
  have pw: "pow2 (int ?b - 53) * 2 ^ (53 - ?b) = 1"
  proof -
    have "pow2 (int ?b - 53) * pow2 (int (53 - ?b)) = pow2 0"
      using pow2_add [of "int ?b - 53" "int (53 - ?b)"] b53 by (simp add: of_nat_diff)
    then show ?thesis by (simp add: pow2_nat) (simp add: pow2_def)
  qed
  then have inv: "1 / pow2 (int ?b - 53) = 2 ^ (53 - ?b)"
    using pow2_pos [of "int ?b - 53"] by (simp add: field_simps)
  have "of_nat n / pow2 (int ?b - 53) = of_nat n * (1 / pow2 (int ?b - 53))"
    by simp
  also have "\<dots> = of_nat n * 2 ^ (53 - ?b)"
    by (simp only: inv)
  finally have y: "of_nat n / pow2 (int ?b - 53) = of_int (int (n * 2 ^ (53 - ?b)))"
    by simp
  have m: "roundTiesToEven (of_nat n / pow2 (int ?b - 53)) = int (n * 2 ^ (53 - ?b))"
    unfolding y by (rule round_of_int)
  have v: "of_int (int (n * 2 ^ (53 - ?b))) * pow2 (int ?b - 53) = (of_nat n :: rat)"
    using pw by (simp add: mult.assoc mult.commute)
  have "(of_nat n :: rat) < of_nat (2 ^ 53)" using assms by (simp only: of_nat_less_iff)
  then have fin: "(of_nat n :: rat) < 2 ^ 1024" by simp
  show ?thesis
    by (rule to_double_pos [OF pos e m v fin])
qed

lemma ulp_exponent_lower:
  assumes "0 < a"
  shows "ulp_exponent a = - 1074 \<or> 2 ^ 52 \<le> a / pow2 (ulp_exponent a)"
proof (cases "1 \<le> a")
  case True
  let ?n = "nat \<lfloor>a\<rfloor>"
  let ?b = "bits ?n"
  from True have fl: "1 \<le> \<lfloor>a\<rfloor>" by simp
  then have n: "0 < ?n" by simp
  note bb = bits_bounds [OF n]
  have bpos: "0 < ?b" using n by (rule bits_pos)
  have "0 \<le> \<lfloor>a\<rfloor>" using fl by linarith
  then have "(of_nat ?n :: rat) = of_int \<lfloor>a\<rfloor>" by (rule of_nat_nat)
  moreover have "of_int \<lfloor>a\<rfloor> \<le> a" by (rule of_int_floor_le)
  ultimately have na: "of_nat ?n \<le> a" by (simp only:)
  have "(2::rat) ^ (?b - 1) \<le> of_nat ?n"
    using conjunct1 [OF bb] by (metis of_nat_le_iff of_nat_numeral of_nat_power)
  with na have lo: "(2::rat) ^ (?b - 1) \<le> a" by linarith
  have e: "ulp_exponent a = int ?b - 53"
    using True bpos by (simp add: ulp_exponent_def)
  have idx: "52 + (?b - 1) = ?b + 51" using bpos by simp
  have "pow2 (int ?b - 53) * 2 ^ 52 = pow2 (int ?b - 53) * pow2 52"
    using pow2_nat [of 52] by simp
  also have "\<dots> = pow2 (int ?b - 1)"
    using pow2_add [of "int ?b - 53" 52] by simp
  also have "\<dots> = pow2 (int (?b - 1))"
    using bpos by (simp add: of_nat_diff)
  also have "\<dots> = 2 ^ (?b - 1)" by (rule pow2_nat)
  finally have "pow2 (int ?b - 53) * 2 ^ 52 \<le> a" using lo by simp
  then have "2 ^ 52 \<le> a / pow2 (int ?b - 53)"
    using pow2_pos [of "int ?b - 53"] by (simp add: pos_le_divide_eq mult.commute)
  with e show ?thesis by simp
next
  case False
  let ?n = "nat \<lfloor>1 / a\<rfloor>"
  let ?b = "bits ?n"
  let ?e0 = "- int ?b - 52"
  from False assms have inv: "1 < 1 / a" by simp
  then have fl: "1 \<le> \<lfloor>1 / a\<rfloor>" by simp
  then have n: "0 < ?n" by simp
  note bb = bits_bounds [OF n]
  have e: "ulp_exponent a = max (- 1074) ?e0"
    using False by (simp add: ulp_exponent_def)
  show ?thesis
  proof (cases "?e0 \<le> - 1074")
    case True
    with e show ?thesis by simp
  next
    case False
    with e have e': "ulp_exponent a = ?e0" by simp
    have "0 \<le> \<lfloor>1 / a\<rfloor>" using fl by linarith
    then have eq: "(of_nat ?n :: rat) = of_int \<lfloor>1 / a\<rfloor>" by (rule of_nat_nat)
    have "1 / a < of_int \<lfloor>1 / a\<rfloor> + 1" by linarith
    then have na: "1 / a < of_nat ?n + 1" by (simp only: eq)
    from bb have "?n < 2 ^ ?b" by (rule conjunct2)
    then have "Suc ?n \<le> 2 ^ ?b" by (rule Suc_leI)
    then have "of_nat (Suc ?n) \<le> (of_nat (2 ^ ?b) :: rat)" by (simp only: of_nat_le_iff)
    then have "of_nat ?n + 1 \<le> (2::rat) ^ ?b" by simp
    with na have "1 / a < 2 ^ ?b" by linarith
    then have "1 < a * 2 ^ ?b"
      using assms by (simp add: pos_divide_less_eq mult.commute)
    have "pow2 ?e0 * 2 ^ 52 * 2 ^ ?b = pow2 ?e0 * (2 ^ 52 * 2 ^ ?b)"
      by (simp only: mult.assoc)
    also have "(2::rat) ^ 52 * 2 ^ ?b = 2 ^ (52 + ?b)"
      by (rule power_add [symmetric])
    also have "\<dots> = pow2 (int (52 + ?b))" by (rule pow2_nat [symmetric])
    also have "pow2 ?e0 * pow2 (int (52 + ?b)) = pow2 0"
      using pow2_add [of ?e0 "int (52 + ?b)"] by simp
    finally have one: "pow2 ?e0 * 2 ^ 52 * 2 ^ ?b = 1" by (simp add: pow2_def)
    with \<open>1 < a * 2 ^ ?b\<close> have "pow2 ?e0 * 2 ^ 52 * 2 ^ ?b < a * 2 ^ ?b" by simp
    then have "pow2 ?e0 * 2 ^ 52 < a" by simp
    then have "2 ^ 52 \<le> a / pow2 ?e0"
      using pow2_pos [of ?e0] by (simp add: pos_le_divide_eq mult.commute)
    with e' show ?thesis by simp
  qed
qed


lemma pow2_less: "a < b \<Longrightarrow> pow2 a < pow2 b"
  unfolding pow2_powi by (rule power_int_strict_increasing) simp_all

lemma pow2_diff: "pow2 (a - b) = pow2 a / pow2 b"
proof -
  have "pow2 a = pow2 (a - b) * pow2 b"
    using pow2_add [of "a - b" b] by simp
  then show ?thesis
    using pow2_pos [of b] by simp
qed

lemma ulp_exponent_upper:
  assumes "0 < a"
  shows "a / pow2 (ulp_exponent a) \<le> 2 ^ 53"
proof -
  have "a \<le> of_int \<lceil>a\<rceil>" by (rule le_of_int_ceiling)
  also have "\<dots> = of_nat (nat \<lceil>a\<rceil>)"
    using assms by (simp add: of_nat_nat)
  also have "\<dots> < 2 ^ nat \<lceil>a\<rceil>" by (rule of_nat_less_two_power)
  finally show ?thesis
    using ulp_exponent_bounds(2) [OF assms] by blast
qed

text \<open>A point of the grid of doubles rounds to itself.\<close>

lemma to_double_grid:
  assumes m: "0 < m" "m \<le> 2 ^ 53" and e: "- 1074 \<le> e"
    and fin: "of_int m * pow2 e < 2 ^ 1024"
  shows "to_double (of_int m * pow2 e) = Num (of_int m * pow2 e)"
proof -
  let ?v = "of_int m * pow2 e :: rat"
  let ?g = "ulp_exponent ?v"
  have pos: "0 < ?v" using m(1) pow2_pos [of e] by simp
  have q: "?v / pow2 ?g = of_int m * pow2 (e - ?g)"
    by (simp add: pow2_diff)
  have "\<exists>M. ?v / pow2 ?g = of_int M"
  proof (cases "?g \<le> e")
    case True
    then have "pow2 (e - ?g) = of_int (2 ^ nat (e - ?g))"
      by (simp add: pow2_def)
    then have "?v / pow2 ?g = of_int (m * 2 ^ nat (e - ?g))"
      unfolding q by simp
    then show ?thesis ..
  next
    case False
    with e have "?g \<noteq> - 1074" by simp
    with ulp_exponent_lower [OF pos] have lo: "2 ^ 52 \<le> of_int m * pow2 (e - ?g)"
      unfolding q by simp
    from False have "e - ?g \<le> - 1" by simp
    then have "pow2 (e - ?g) \<le> pow2 (- 1)" by (rule pow2_mono)
    then have half: "pow2 (e - ?g) \<le> 1 / 2" by (simp add: pow2_def)
    have mr: "(of_int m :: rat) \<le> 2 ^ 53"
    proof -
      from m(2) have "(of_int m :: rat) \<le> of_int (2 ^ 53)" by (simp only: of_int_le_iff)
      then show ?thesis by simp
    qed
    have "of_int m * pow2 (e - ?g) \<le> of_int m * (1 / 2)"
      using half m(1) by (simp only: mult_le_cancel_left_pos of_int_0_less_iff)
    with lo have "(2::rat) ^ 53 \<le> of_int m" by simp
    with mr have m53: "(of_int m :: rat) = 2 ^ 53" by simp
    have "- 1 \<le> e - ?g"
    proof (rule ccontr)
      assume "\<not> - 1 \<le> e - ?g"
      then have "e - ?g < - 1" by simp
      then have "pow2 (e - ?g) < pow2 (- 1)" by (rule pow2_less)
      then have "pow2 (e - ?g) < 1 / 2" by (simp add: pow2_def)
      with lo m53 show False by simp
    qed
    with \<open>e - ?g \<le> - 1\<close> have "e - ?g = - 1" by simp
    then have "pow2 (e - ?g) = 1 / 2" by (simp add: pow2_def)
    with m53 have "?v / pow2 ?g = of_int (2 ^ 52)"
      unfolding q by simp
    then show ?thesis ..
  qed
  then obtain M where M: "?v / pow2 ?g = of_int M" ..
  have r: "roundTiesToEven (?v / pow2 ?g) = M"
    unfolding M by (rule round_of_int)
  have again: "of_int M * pow2 ?g = ?v"
    using M pow2_pos [of ?g] by (simp add: field_simps)
  show ?thesis
    by (rule to_double_pos [OF pos refl r again fin])
qed

lemma to_double_idem_pos:
  assumes "0 < x" "to_double x = Num v"
  shows "to_double v = Num v"
proof -
  let ?e = "ulp_exponent x"
  let ?m = "roundTiesToEven (x / pow2 ?e)"
  from assms have v: "v = of_int ?m * pow2 ?e" and fin: "of_int ?m * pow2 ?e < (2::rat) ^ 1024"
    by (simp_all add: to_double_def Let_def split: if_splits)
  have "0 \<le> x / pow2 ?e" using assms(1) pow2_pos [of ?e] by simp
  then have m0: "0 \<le> ?m" by (rule round_nonneg)
  have "x / pow2 ?e \<le> of_int (2 ^ 53)"
    using ulp_exponent_upper [OF assms(1)] by simp
  then have m1: "?m \<le> 2 ^ 53" by (rule round_le)
  have e: "- 1074 \<le> ?e" by (simp add: ulp_exponent_def)
  show ?thesis
  proof (cases "?m = 0")
    case True
    with v show ?thesis by (simp add: to_double_def)
  next
    case False
    with m0 have "0 < ?m" by simp
    from to_double_grid [OF this m1 e fin] show ?thesis
      unfolding v .
  qed
qed

lemma to_double_idem: "to_double x = Num v \<Longrightarrow> to_double v = Num v"
proof -
  assume a: "to_double x = Num v"
  consider "x = 0" | "0 < x" | "x < 0" by linarith
  then show ?thesis
  proof cases
    case 1
    with a show ?thesis by (simp add: to_double_def)
  next
    case 2
    then show ?thesis using a by (rule to_double_idem_pos)
  next
    case 3
    then have p: "0 < - x" by simp
    have "to_double (- x) = Num (- v)"
      using a by (simp add: to_double_neg)
    with p have "to_double (- v) = Num (- v)" by (rule to_double_idem_pos)
    then show ?thesis
      using to_double_neg [of "- v"] by simp
  qed
qed

lemma to_double_numeral:
  "numeral n < (2::nat) ^ 53 \<Longrightarrow> to_double (numeral n) = Num (numeral n)"
  "to_double 0 = Num 0" "to_double 1 = Num 1"
  using to_double_nat [of "numeral n"] to_double_nat [of 0] to_double_nat [of 1]
  by simp_all

text \<open>The roundings met while the coordinates of the example sentences are decoded; each
  names the exponent and the rounded significand.\<close>

lemma dbl_1: "to_double (3519 / 500) = Num (1981020886089597 / 281474976710656)"
  by (rule to_double_pos [where e = "- 50" and m = 7924083544358388])
     (simp_all add: ulp_exponent_def bits_numeral floor_rat_numeral pow2_def
        roundTiesToEven_def Let_def)

lemma dbl_2: "to_double (660340295363199 / 5629499534213120) = Num (8452355780648947 / 72057594037927936)"
  by (rule to_double_pos [where e = "- 56" and m = 8452355780648947])
     (simp_all add: ulp_exponent_def bits_numeral floor_rat_numeral pow2_def
        roundTiesToEven_def Let_def)

lemma dbl_3: "to_double (3467216869601189875 / 72057594037927936) = Num (423244246777489 / 8796093022208)"
  by (rule to_double_pos [where e = "- 47" and m = 6771907948439824])
     (simp_all add: ulp_exponent_def bits_numeral floor_rat_numeral pow2_def
        roundTiesToEven_def Let_def)

lemma dbl_4: "to_double (31 / 60) = Num (4653719614949513 / 9007199254740992)"
  by (rule to_double_pos [where e = "- 53" and m = 4653719614949513])
     (simp_all add: ulp_exponent_def bits_numeral floor_rat_numeral pow2_def
        roundTiesToEven_def Let_def)

lemma dbl_5: "to_double (103732911417100425 / 9007199254740992) = Num (6483306963568777 / 562949953421312)"
  by (rule to_double_pos [where e = "- 49" and m = 6483306963568777])
     (simp_all add: ulp_exponent_def bits_numeral floor_rat_numeral pow2_def
        roundTiesToEven_def Let_def)

lemma dbl_6: "to_double (329 / 20) = Num (4630263366890291 / 281474976710656)"
  by (rule to_double_pos [where e = "- 48" and m = 4630263366890291])
     (simp_all add: ulp_exponent_def bits_numeral floor_rat_numeral pow2_def
        roundTiesToEven_def Let_def)

lemma dbl_7: "to_double (4630263366890291 / 16888498602639360) = Num (1234736897837411 / 4503599627370496)"
  by (rule to_double_pos [where e = "- 54" and m = 4938947591349644])
     (simp_all add: ulp_exponent_def bits_numeral floor_rat_numeral pow2_def
        roundTiesToEven_def Let_def)

lemma dbl_8: "to_double (221911118638991715 / 4503599627370496) = Num (6934722457468491 / 140737488355328)"
  by (rule to_double_pos [where e = "- 47" and m = 6934722457468491])
     (simp_all add: ulp_exponent_def bits_numeral floor_rat_numeral pow2_def
        roundTiesToEven_def Let_def)

lemma dbl_9: "to_double (278 / 25) = Num (6260003482044989 / 562949953421312)"
  by (rule to_double_pos [where e = "- 49" and m = 6260003482044989])
     (simp_all add: ulp_exponent_def bits_numeral floor_rat_numeral pow2_def
        roundTiesToEven_def Let_def)

lemma dbl_10: "to_double (6260003482044989 / 33776997205278720) = Num (6677337047514655 / 36028797018963968)"
  by (rule to_double_pos [where e = "- 55" and m = 6677337047514655])
     (simp_all add: ulp_exponent_def bits_numeral floor_rat_numeral pow2_def
        roundTiesToEven_def Let_def)

lemma dbl_11: "to_double (4438219370380082719 / 36028797018963968) = Num (8668397207773599 / 70368744177664)"
  by (rule to_double_pos [where e = "- 46" and m = 8668397207773599])
     (simp_all add: ulp_exponent_def bits_numeral floor_rat_numeral pow2_def
        roundTiesToEven_def Let_def)

lemma dbl_12: "to_double (8668397207773599 / 70368744177664) = Num (8668397207773599 / 70368744177664)"
  by (rule to_double_pos [where e = "- 46" and m = 8668397207773599])
     (simp_all add: ulp_exponent_def bits_numeral floor_rat_numeral pow2_def
        roundTiesToEven_def Let_def)

lemmas dbl_examples = dbl_1 dbl_2 dbl_3 dbl_4 dbl_5 dbl_6 dbl_7 dbl_8 dbl_9 dbl_10 dbl_11 dbl_12

lemmas parse_defs = parseInt_def parseFloat_def parseUnsigned_def exponentOf_def startsWith_def
  signOf_def isWhiteSpace_def isDigit_def digitsVal_def digitVal_def Let_def

lemma to_double_overflow:
  assumes "0 < x" "ulp_exponent x = e" "roundTiesToEven (x / pow2 e) = m"
    and "2 ^ 1024 \<le> of_int m * pow2 e"
  shows "to_double x = PosInf"
  using assms by (simp add: to_double_def Let_def)

text \<open>Beyond \<open>2^53\<close> integers are rounded, and beyond the largest double a literal is
  \<open>Infinity\<close>.\<close>

lemma rounding_examples:
  "parseInt ''9007199254740993'' = Num 9007199254740992"
  "parseFloat ''481e309'' = PosInf"
proof -
  have "to_double 9007199254740993 = Num 9007199254740992"
    by (rule to_double_pos [where e = 1 and m = 4503599627370496])
       (simp_all add: ulp_exponent_def bits_numeral floor_rat_numeral pow2_def
          roundTiesToEven_def Let_def)
  then show "parseInt ''9007199254740993'' = Num 9007199254740992"
    by (simp add: parse_defs)
  have "to_double (481 * 10 ^ 309) = PosInf"
    by (rule to_double_overflow [where e = 983 and m = 5883819465114233])
       (simp_all add: ulp_exponent_def bits_numeral floor_rat_numeral pow2_def
          roundTiesToEven_def Let_def)
  then show "parseFloat ''481e309'' = PosInf"
    by (simp add: parse_defs)
qed

subsection \<open>The example sentences\<close>

lemma split_fix1:
  "split ''$GPGGA,123519,4807.038,N,01131.000,E,1,08,0.9,545.4,M,46.9,M,,*47''
     = [''$GPGGA'', ''123519'', ''4807.038'', ''N'', ''01131.000'', ''E'', ''1'', ''08'', ''0.9'',
        ''545.4'', ''M'', ''46.9'', ''M'', [], ''*47'']"
  by simp

lemma split_fix4:
  "split ''$GPGGA,123520,4807.038,N,01131.000,E,4,08,0.9,545.4,M,46.9,M,,*XX''
     = [''$GPGGA'', ''123520'', ''4807.038'', ''N'', ''01131.000'', ''E'', ''4'', ''08'', ''0.9'',
        ''545.4'', ''M'', ''46.9'', ''M'', [], ''*XX'']"
  by simp

lemma parseInt_examples:
  "parseInt ''08'' = Num 8" "parseInt ''48'' = Num 48" "parseInt ''011'' = Num 11"
  "parseInt ''00'' = Num 0"
  by (simp_all add: parse_defs to_double_numeral)

lemma parseNmeaCoord_examples:
  "parseNmeaCoord ''4807.038'' ''N'' = Some (Num (423244246777489 / 8796093022208))"
  "parseNmeaCoord ''01131.000'' ''E'' = Some (Num (6483306963568777 / 562949953421312))"
  "parseNmeaCoord ''4916.45'' ''N'' = Some (Num (6934722457468491 / 140737488355328))"
  "parseNmeaCoord ''12311.12'' ''W'' = Some (Num (- (8668397207773599 / 70368744177664)))"
  by (simp_all add: parseNmeaCoord_def parse_defs to_double_numeral dbl_examples to_double_neg)

lemma parseGGA_fix1:
  "parseGGA ''$GPGGA,123519,4807.038,N,01131.000,E,1,08,0.9,545.4,M,46.9,M,,*47''
     = Some \<lparr> lat = Some (Num (423244246777489 / 8796093022208)),
              lon = Some (Num (6483306963568777 / 562949953421312)), fix' = ''1'',
              time = ''123519'', sats = Num 8, raw = None \<rparr>"
  unfolding parseGGA_def split_fix1 by (simp add: parseNmeaCoord_examples parseInt_examples)

subsection \<open>The RTK gate and the position tracker\<close>

lemma startsWith_same_length:
  "startsWith data p \<Longrightarrow> startsWith data q \<Longrightarrow> length p = length q \<Longrightarrow> p = q"
  by (simp add: startsWith_def)

lemma serial_data_gate_irrelevant:
  "\<not> rtk_gate_returns data \<Longrightarrow>
     serial_data env st data = serial_data (env\<lparr>env_TCP_ONLY_RTK_FIXED := v\<rparr>) st data"
  by (simp add: serial_data_def gate_off)

lemma serial_data_latestGGA:
  "latestGGA (serial_data env st data) =
     (if array_includes (TCP_ALLOW_LIST env) (NMEA_SUFFIX data)
      then latestGGA (track_gga st data) else latestGGA st)"
  by (simp add: serial_data_def Let_def)

lemma parseGGA_None: "parseGGA s = None \<longleftrightarrow> length (split s) < 15"
  by (simp add: parseGGA_def Let_def)

lemma parseGGA_fix: "parseGGA s = Some g \<Longrightarrow> fix' g = split s ! 6"
  by (auto simp add: parseGGA_def Let_def split: if_splits)

subsection \<open>Decimal digit strings\<close>

lemma isDigit_not_space: "isDigit c \<Longrightarrow> \<not> isWhiteSpace c"
  by (auto simp add: isDigit_def isWhiteSpace_def)

lemma isDigit_not_sign:
  "isDigit c \<Longrightarrow> c \<noteq> CHR ''-'' \<and> c \<noteq> CHR ''+'' \<and> c \<noteq> CHR ''.'' \<and> c \<noteq> CHR ''I''"
  by (auto simp add: isDigit_def)

lemma digitVal_le: "isDigit c \<Longrightarrow> digitVal c \<le> 9"
  by (auto simp add: isDigit_def digitVal_def)

lemma digitsVal_snoc: "digitsVal (ds @ [c]) = 10 * digitsVal ds + digitVal c"
  by (simp add: digitsVal_def)

lemma digitsVal_less: "list_all isDigit ds \<Longrightarrow> digitsVal ds < 10 ^ length ds"
proof (induction ds rule: rev_induct)
  case Nil
  then show ?case by (simp add: digitsVal_def)
next
  case (snoc c ds)
  then have "digitsVal ds < 10 ^ length ds" and "digitVal c \<le> 9"
    by (simp_all add: digitVal_le)
  then have "10 * digitsVal ds + digitVal c < 10 * 10 ^ length ds"
    by linarith
  then show ?case by (simp add: digitsVal_snoc)
qed

lemma takeWhile_digits:
  "list_all isDigit ds \<Longrightarrow> rest = [] \<or> \<not> isDigit (hd rest) \<Longrightarrow>
     takeWhile isDigit (ds @ rest) = ds \<and> dropWhile isDigit (ds @ rest) = rest"
proof (induction ds)
  case Nil
  then show ?case by (cases rest) auto
next
  case (Cons d ds)
  then show ?case by simp
qed

lemma digits_no_prefix:
  assumes "list_all isDigit ds" "ds \<noteq> []"
  shows "dropWhile isWhiteSpace (ds @ rest) = ds @ rest"
    and "signOf (ds @ rest) = (False, ds @ rest)"
    and "\<not> startsWith (ds @ rest) ''Infinity''"
  using assms isDigit_not_space [of "hd ds"] isDigit_not_sign [of "hd ds"]
  by (cases ds; simp add: signOf_def startsWith_def)+

lemma parseInt_digits:
  assumes "list_all isDigit ds" "ds \<noteq> []"
  shows "parseInt ds = to_double (of_nat (digitsVal ds))"
proof -
  have tw: "takeWhile isDigit ds = ds"
    using takeWhile_digits [of ds "[]"] assms(1) by simp
  have pre: "dropWhile isWhiteSpace ds = ds" "signOf ds = (False, ds)"
    using digits_no_prefix(1,2) [OF assms, of "[]"] by simp_all
  show ?thesis
    unfolding parseInt_def pre using assms(2) by (simp add: tw)
qed

lemma parseFloat_digits:
  assumes "list_all isDigit ip" "ip \<noteq> []" "list_all isDigit fp"
  shows "parseFloat (ip @ CHR ''.'' # fp)
           = to_double (of_nat (digitsVal ip) + of_nat (digitsVal fp) / 10 ^ length fp)"
proof -
  have a: "takeWhile isDigit (ip @ CHR ''.'' # fp) = ip"
    "dropWhile isDigit (ip @ CHR ''.'' # fp) = CHR ''.'' # fp"
    using takeWhile_digits [of ip "CHR ''.'' # fp"] assms(1) by (simp_all add: isDigit_def)
  have b: "takeWhile isDigit fp = fp" "dropWhile isDigit fp = []"
    using takeWhile_digits [of fp "[]"] assms(3) by simp_all
  have "parseUnsigned (ip @ CHR ''.'' # fp)
          = to_double (of_nat (digitsVal ip) + of_nat (digitsVal fp) / 10 ^ length fp)"
    unfolding parseUnsigned_def a
    using digits_no_prefix(3) [OF assms(1,2), of "CHR ''.'' # fp"] assms(2)
    by (simp add: b exponentOf_def)
  then show ?thesis
    using digits_no_prefix(1,2) [OF assms(1,2), of "CHR ''.'' # fp"]
    by (simp add: parseFloat_def)
qed

lemma parseFloat_integer:
  assumes "list_all isDigit ip" "ip \<noteq> []"
  shows "parseFloat ip = to_double (of_nat (digitsVal ip))"
proof -
  have a: "takeWhile isDigit ip = ip" "dropWhile isDigit ip = []"
    using takeWhile_digits [of ip "[]"] assms(1) by simp_all
  have "parseUnsigned ip = to_double (of_nat (digitsVal ip))"
    unfolding parseUnsigned_def a
    using digits_no_prefix(3) [OF assms, of "[]"] assms(2)
    by (simp add: exponentOf_def digitsVal_def)
  then show ?thesis
    using digits_no_prefix(1,2) [OF assms, of "[]"]
    by (simp add: parseFloat_def)
qed

text \<open>Degrees below 1000 plus minutes below 100 over 60, in doubles: three roundings.\<close>

lemma degrees_minutes:
  assumes D: "D < 1000" and M: "0 \<le> M" "M < 100"
  shows "\<exists>w. js_add (to_double (of_nat D)) (js_div_const (to_double M) 60) = Num w \<and>
             0 \<le> w \<and> \<bar>w - (of_nat D + M / 60)\<bar> \<le> 1 / 2 ^ 43 \<and>
             js_mul_const (Num w) (- 1) = Num (- w)"
proof -
  have d: "to_double (of_nat D) = Num (of_nat D)"
    by (rule to_double_nat) (use D in simp)
  from M have "M < 2 ^ 7" by simp
  from to_double_round [OF M(1) this]
  obtain m where m: "to_double M = Num m" "0 \<le> m" "m \<le> 2 ^ 7" "\<bar>m - M\<bar> \<le> 2 ^ 7 / 2 ^ 54"
    by auto
  have q0: "0 \<le> m / 60" "m / 60 < 2 ^ 2" using m(2,3) by simp_all
  from to_double_round [OF this]
  obtain q where q: "to_double (m / 60) = Num q" "0 \<le> q" "q \<le> 2 ^ 2"
    "\<bar>q - m / 60\<bar> \<le> 2 ^ 2 / 2 ^ 54"
    by auto
  have "(of_nat D :: rat) \<le> of_nat 999" using D by (simp only: of_nat_le_iff)
  then have Dr: "(of_nat D :: rat) \<le> 999" by simp
  have s0: "0 \<le> of_nat D + q" "of_nat D + q < 2 ^ 10" using q(2,3) Dr by simp_all
  from to_double_round [OF this]
  obtain w where w: "to_double (of_nat D + q) = Num w" "0 \<le> w"
    "\<bar>w - (of_nat D + q)\<bar> \<le> 2 ^ 10 / 2 ^ 54"
    by auto
  have sum: "js_add (to_double (of_nat D)) (js_div_const (to_double M) 60) = Num w"
    by (simp add: d m(1) q(1) w(1))
  have split3: "w - (of_nat D + M / 60) = (w - (of_nat D + q)) + ((q - m / 60) + (m - M) / 60)"
    by (simp add: diff_divide_distrib)
  have "\<bar>w - (of_nat D + M / 60)\<bar>
          \<le> \<bar>w - (of_nat D + q)\<bar> + \<bar>(q - m / 60) + (m - M) / 60\<bar>"
    unfolding split3 by (rule abs_triangle_ineq)
  also have "\<dots> \<le> \<bar>w - (of_nat D + q)\<bar> + (\<bar>q - m / 60\<bar> + \<bar>(m - M) / 60\<bar>)"
    by (intro add_left_mono abs_triangle_ineq)
  also have "\<dots> = \<bar>w - (of_nat D + q)\<bar> + \<bar>q - m / 60\<bar> + \<bar>m - M\<bar> / 60"
    by simp
  also have "\<dots> \<le> 2 ^ 10 / 2 ^ 54 + 2 ^ 2 / 2 ^ 54 + (2 ^ 7 / 2 ^ 54) / 60"
    using w(3) q(4) m(4) by (intro add_mono divide_right_mono) simp_all
  also have "\<dots> \<le> 1 / 2 ^ 43" by simp
  finally have err: "\<bar>w - (of_nat D + M / 60)\<bar> \<le> 1 / 2 ^ 43" .
  have "to_double w = Num w" using w(1) by (rule to_double_idem)
  then have "js_mul_const (Num w) (- 1) = Num (- w)"
    by (simp add: to_double_neg)
  with sum w(2) err show ?thesis by blast
qed


text \<open>A well-formed coordinate field: degree digits, two minute digits, then nothing or a
  point and fraction digits.\<close>

lemma parseNmeaCoord_wellformed:
  assumes dir: "dir \<in> {''N'', ''S'', ''E'', ''W''}"
    and deg: "list_all isDigit deg" "length deg = (if dir = ''N'' \<or> dir = ''S'' then 2 else 3)"
    and mi: "list_all isDigit mi" "length mi = 2"
    and fr: "list_all isDigit fr"
    and tail: "tail = [] \<and> fr = [] \<or> tail = CHR ''.'' # fr"
  shows "\<exists>w. 0 \<le> w \<and>
           \<bar>w - (of_nat (digitsVal deg)
                 + (of_nat (digitsVal mi) + of_nat (digitsVal fr) / 10 ^ length fr) / 60)\<bar>
             \<le> 1 / 2 ^ 43 \<and>
           parseNmeaCoord (deg @ mi @ tail) dir
             = Some (Num (if dir = ''S'' \<or> dir = ''W'' then - w else w))"
proof -
  let ?n = "if dir = ''N'' \<or> dir = ''S'' then 2 else 3 :: nat"
  let ?D = "digitsVal deg"
  let ?M = "of_nat (digitsVal mi) + of_nat (digitsVal fr) / 10 ^ length fr :: rat"
  let ?coord = "deg @ mi @ tail"
  from deg have len: "length deg = ?n" and ne: "deg \<noteq> []" and l3: "length deg \<le> 3"
    by (auto split: if_splits)
  from mi have me: "mi \<noteq> []" by auto
  from len mi(2) have long: "\<not> (?coord = [] \<or> length ?coord < 4)"
    by (auto split: if_splits)
  have t: "take ?n ?coord = deg" "drop ?n ?coord = mi @ tail"
    using len by simp_all
  have "?D < 10 ^ length deg" using deg(1) by (rule digitsVal_less)
  also have "\<dots> \<le> 10 ^ 3" using l3 by (intro power_increasing) simp_all
  finally have D: "?D < 1000" by simp
  have "digitsVal mi < 10 ^ length mi" using mi(1) by (rule digitsVal_less)
  then have "digitsVal mi \<le> 99" using mi(2) by simp
  then have "(of_nat (digitsVal mi) :: rat) \<le> of_nat 99" by (simp only: of_nat_le_iff)
  then have m99: "(of_nat (digitsVal mi) :: rat) \<le> 99" by simp
  have "digitsVal fr < 10 ^ length fr" using fr by (rule digitsVal_less)
  then have "(of_nat (digitsVal fr) :: rat) < of_nat (10 ^ length fr)"
    by (simp only: of_nat_less_iff)
  then have f1: "of_nat (digitsVal fr) / 10 ^ length fr < (1::rat)"
    by simp
  have f0: "0 \<le> of_nat (digitsVal fr) / (10 ^ length fr :: rat)"
    by simp
  have m0: "0 \<le> (of_nat (digitsVal mi) :: rat)"
    by simp
  have M: "0 \<le> ?M" "?M < 100"
    using m0 m99 f0 f1 by linarith+
  have d: "parseInt deg = to_double (of_nat ?D)"
    using deg(1) ne by (rule parseInt_digits)
  have m: "parseFloat (mi @ tail) = to_double ?M"
  proof (cases "tail = []")
    case True
    with tail have "fr = []" by simp
    with True show ?thesis
      using parseFloat_integer [OF mi(1) me] by (simp add: digitsVal_def)
  next
    case False
    with tail have "tail = CHR ''.'' # fr" by simp
    then show ?thesis
      using parseFloat_digits [OF mi(1) me fr] by simp
  qed
  from degrees_minutes [OF D M]
  obtain w where w: "js_add (to_double (of_nat ?D)) (js_div_const (to_double ?M) 60) = Num w"
    "0 \<le> w" "\<bar>w - (of_nat ?D + ?M / 60)\<bar> \<le> 1 / 2 ^ 43"
    "js_mul_const (Num w) (- 1) = Num (- w)"
    by blast
  have "parseNmeaCoord ?coord dir = Some (Num (if dir = ''S'' \<or> dir = ''W'' then - w else w))"
    unfolding parseNmeaCoord_def Let_def t d m using long w(1,4) by simp
  with w(2,3) show ?thesis by blast
qed

subsection \<open>Sentences that do not parse\<close>

lemma split_nofix:
  "split ''$GPGGA,123519,,,,,0,00,,,,,,,*66''
     = [''$GPGGA'', ''123519'', [], [], [], [], ''0'', ''00'', [], [], [], [], [], [], ''*66'']"
  by simp

lemma parseGGA_nofix:
  "parseGGA ''$GPGGA,123519,,,,,0,00,,,,,,,*66''
     = Some \<lparr> lat = None, lon = None, fix' = ''0'', time = ''123519'', sats = Num 0, raw = None \<rparr>"
  unfolding parseGGA_def split_nofix by (simp add: parseNmeaCoord_def parseInt_examples)

lemma parseGGA_coords:
  "parseGGA s = Some g \<Longrightarrow>
     (lat g = None \<longleftrightarrow> length (split s ! 2) < 4) \<and> (lon g = None \<longleftrightarrow> length (split s ! 4) < 4)"
  by (auto simp add: parseGGA_def parseNmeaCoord_def Let_def split: if_splits)

lemma serial_lines_Cons:
  "serial_lines env st (d # ds) = serial_lines env (serial_data env st d) ds"
  by (simp add: serial_lines_def)

subsection \<open>The registry of clients\<close>

text \<open>A socket is registered once: the listeners keep \<open>clients\<close> free of duplicates when
  every connection brings a new socket.\<close>

lemma clients_distinct:
  "distinct (clients st) \<Longrightarrow> s \<notin> set (clients st) \<Longrightarrow> distinct (clients (connection st s))"
  "distinct (clients st) \<Longrightarrow> distinct (clients (socket_error st k))"
  "distinct (clients st) \<Longrightarrow> distinct (clients (socket_close st k))"
  "distinct (clients st) \<Longrightarrow> distinct (clients (serial_data env st data))"
  by (simp_all add: connection_def socket_error_def socket_close_def remove_client_remove1
      serial_data_clients)

lemma forEach_write_writable: "writable (forEach_write cs msg h s) = writable (h s)"
  unfolding forEach_write_def
  by (induction cs arbitrary: h) (simp_all add: socket_write_def)

lemma serial_data_writable:
  "writable (sockets (serial_data env st data) s) = writable (sockets st s)"
  by (simp add: serial_data_sockets forEach_write_writable)

lemma serial_data_sent:
  assumes "distinct (clients st)"
    and "array_includes (TCP_ALLOW_LIST env) (NMEA_SUFFIX data)"
    and "\<not> (TCP_ONLY_RTK_FIXED env \<and> rtk_gate_returns data)"
  shows "sockets (serial_data env st data) s =
           (if s \<in> set (clients st) \<and> writable (sockets st s)
            then (sockets st s)\<lparr>sent := sent (sockets st s) @ [data @ ''\<newline>'']\<rparr>
            else sockets st s)"
  using assms by (simp add: serial_data_sockets forEach_write_distinct socket_write_def)

lemma serial_lines_sent:
  assumes "distinct (clients st)" and "j \<in> set (clients st)" and "writable (sockets st j)"
    and "\<forall>d \<in> set ds. array_includes (TCP_ALLOW_LIST env) (NMEA_SUFFIX d) \<and>
                       \<not> (TCP_ONLY_RTK_FIXED env \<and> rtk_gate_returns d)"
  shows "sent (sockets (serial_lines env st ds) j)
           = sent (sockets st j) @ map (\<lambda>d. d @ ''\<newline>'') ds"
  using assms
proof (induction ds arbitrary: st)
  case Nil
  then show ?case by (simp add: serial_lines_def)
next
  case (Cons d ds)
  let ?st = "serial_data env st d"
  from Cons.prems have fw: "array_includes (TCP_ALLOW_LIST env) (NMEA_SUFFIX d)"
    "\<not> (TCP_ONLY_RTK_FIXED env \<and> rtk_gate_returns d)"
    by simp_all
  from Cons.prems have inv: "distinct (clients ?st)" "j \<in> set (clients ?st)"
    "writable (sockets ?st j)"
    by (simp_all add: serial_data_clients serial_data_writable)
  from Cons.prems have rest: "\<forall>d \<in> set ds. array_includes (TCP_ALLOW_LIST env) (NMEA_SUFFIX d) \<and>
                       \<not> (TCP_ONLY_RTK_FIXED env \<and> rtk_gate_returns d)"
    by simp
  have one: "sent (sockets ?st j) = sent (sockets st j) @ [d @ ''\<newline>'']"
    using serial_data_sent [OF Cons.prems(1) fw, of j] Cons.prems(2,3) by simp
  show ?case
    unfolding serial_lines_Cons Cons.IH [OF inv rest] one by simp
qed

subsection \<open>The connection listener\<close>


subsection \<open>The NTRIP response\<close>

lemma foldl_res_data:
  "foldl res_data st chunks = st\<lparr>serial_written := serial_written st @ chunks\<rparr>"
  by (induction chunks arbitrary: st) (simp_all add: res_data_def)

section \<open>The claims\<close>

subsection \<open>The RTK gate\<close>

text \<open>
  Claim C1, as the code has it. With \<open>TCP_ONLY_RTK_FIXED\<close> on, a line that starts with
  \<open>$GNGGA\<close> or \<open>$GPGGA\<close> and has more than 6 fields is not broadcast unless its 7th field
  is \<open>4\<close>; a line that starts with \<open>$GNRMC\<close> or \<open>$GPRMC\<close> and has more than 12 fields is
  not broadcast unless its 13th field is \<open>R\<close>. Every other line (another type, another
  talker, fewer fields, or the field as required) is handled as with the gate off; so a
  \<open>$GNGGA\<close>/\<open>$GPGGA\<close> line with 7th field \<open>4\<close>, GGA being allowed, is written to every
  writable client.
\<close>

theorem rtk_fixed_gate:
  assumes "TCP_ONLY_RTK_FIXED env"
  shows
    "((startsWith data ''$GNGGA'' \<or> startsWith data ''$GPGGA'') \<and>
        6 < length (split data) \<and> split data ! 6 \<noteq> ''4''
        \<longrightarrow> sockets (serial_data env st data) = sockets st) \<and>
     ((startsWith data ''$GNRMC'' \<or> startsWith data ''$GPRMC'') \<and>
        12 < length (split data) \<and> split data ! 12 \<noteq> ''R''
        \<longrightarrow> sockets (serial_data env st data) = sockets st) \<and>
     (\<not> ((startsWith data ''$GNGGA'' \<or> startsWith data ''$GPGGA'') \<and>
           6 < length (split data) \<and> split data ! 6 \<noteq> ''4'') \<and>
      \<not> ((startsWith data ''$GNRMC'' \<or> startsWith data ''$GPRMC'') \<and>
           12 < length (split data) \<and> split data ! 12 \<noteq> ''R'')
        \<longrightarrow> serial_data env st data
              = serial_data (env\<lparr>env_TCP_ONLY_RTK_FIXED := None\<rparr>) st data) \<and>
     ((startsWith data ''$GNGGA'' \<or> startsWith data ''$GPGGA'') \<and>
        6 < length (split data) \<and> split data ! 6 = ''4'' \<and>
        ''GGA'' \<in> set (TCP_ALLOW_LIST env) \<and> distinct (clients st)
        \<longrightarrow> (\<forall>s \<in> set (clients st). writable (sockets st s) \<longrightarrow>
               sent (sockets (serial_data env st data) s)
                 = sent (sockets st s) @ [data @ ''\<newline>'']))"
proof (intro conjI impI ballI)
  assume "(startsWith data ''$GNGGA'' \<or> startsWith data ''$GPGGA'') \<and>
          6 < length (split data) \<and> split data ! 6 \<noteq> ''4''"
  then have "rtk_gate_returns data"
    by (simp add: rtk_gate_returns_def Let_def)
  with assms show "sockets (serial_data env st data) = sockets st"
    by (simp add: serial_data_sockets)
next
  assume "(startsWith data ''$GNRMC'' \<or> startsWith data ''$GPRMC'') \<and>
          12 < length (split data) \<and> split data ! 12 \<noteq> ''R''"
  then have "rtk_gate_returns data"
    by (simp add: rtk_gate_returns_def Let_def)
  with assms show "sockets (serial_data env st data) = sockets st"
    by (simp add: serial_data_sockets)
next
  assume "\<not> ((startsWith data ''$GNGGA'' \<or> startsWith data ''$GPGGA'') \<and>
             6 < length (split data) \<and> split data ! 6 \<noteq> ''4'') \<and>
          \<not> ((startsWith data ''$GNRMC'' \<or> startsWith data ''$GPRMC'') \<and>
             12 < length (split data) \<and> split data ! 12 \<noteq> ''R'')"
  then have "\<not> rtk_gate_returns data"
    by (simp add: rtk_gate_returns_def Let_def)
  then show "serial_data env st data = serial_data (env\<lparr>env_TCP_ONLY_RTK_FIXED := None\<rparr>) st data"
    by (rule serial_data_gate_irrelevant)
next
  fix s
  assume h: "(startsWith data ''$GNGGA'' \<or> startsWith data ''$GPGGA'') \<and>
             6 < length (split data) \<and> split data ! 6 = ''4'' \<and>
             ''GGA'' \<in> set (TCP_ALLOW_LIST env) \<and> distinct (clients st)"
    and s: "s \<in> set (clients st)" and w: "writable (sockets st s)"
  from h have suffix: "NMEA_SUFFIX data = ''GGA''"
    by (auto dest: startsWith_suffix)
  from h have "\<not> (startsWith data ''$GNRMC'' \<or> startsWith data ''$GPRMC'')"
    by (auto dest: startsWith_same_length)
  with h have "\<not> rtk_gate_returns data"
    by (simp add: rtk_gate_returns_def Let_def)
  with h suffix have "sockets (serial_data env st data)
                        = forEach_write (clients st) (data @ ''\<newline>'') (sockets st)"
    by (simp add: serial_data_sockets array_includes_def)
  with h s w
  show "sent (sockets (serial_data env st data) s) = sent (sockets st s) @ [data @ ''\<newline>'']"
    by (simp add: forEach_write_distinct socket_write_def)
qed

theorem rtk_fixed_gate_witness:
  "sockets (serial_data rtk_env two_clients
      ''$GPGGA,123519,4807.038,N,01131.000,E,1,08,0.9,545.4,M,46.9,M,,*47'') = sockets two_clients \<and>
   sent (sockets (serial_data rtk_env two_clients
      ''$GPGGA,123520,4807.038,N,01131.000,E,4,08,0.9,545.4,M,46.9,M,,*XX'') 1)
     = [''$GPGGA,123520,4807.038,N,01131.000,E,4,08,0.9,545.4,M,46.9,M,,*XX\<newline>'']"
proof -
  let ?d1 = "''$GPGGA,123519,4807.038,N,01131.000,E,1,08,0.9,545.4,M,46.9,M,,*47''"
  let ?d4 = "''$GPGGA,123520,4807.038,N,01131.000,E,4,08,0.9,545.4,M,46.9,M,,*XX''"
  have p1: "(startsWith ?d1 ''$GNGGA'' \<or> startsWith ?d1 ''$GPGGA'') \<and>
            6 < length (split ?d1) \<and> split ?d1 ! 6 \<noteq> ''4''"
    unfolding split_fix1 by (simp add: startsWith_def)
  have p4: "(startsWith ?d4 ''$GNGGA'' \<or> startsWith ?d4 ''$GPGGA'') \<and>
            6 < length (split ?d4) \<and> split ?d4 ! 6 = ''4'' \<and>
            ''GGA'' \<in> set (TCP_ALLOW_LIST rtk_env) \<and> distinct (clients two_clients)"
    unfolding split_fix4 example_envs(3) by (simp add: startsWith_def two_clients_def)
  have st: "1 \<in> set (clients two_clients) \<and> writable (sockets two_clients 1) \<and>
            sent (sockets two_clients 1) = []"
    by (simp add: two_clients_def)
  from rtk_fixed_gate [OF example_envs(2), of ?d1 two_clients] p1
  have a: "sockets (serial_data rtk_env two_clients ?d1) = sockets two_clients"
    by blast
  from rtk_fixed_gate [OF example_envs(2), of ?d4 two_clients] p4 st
  have b: "sent (sockets (serial_data rtk_env two_clients ?d4) 1)
             = sent (sockets two_clients 1) @ [?d4 @ ''\<newline>'']"
    by blast
  from a b st show ?thesis by simp
qed

text \<open>The claim as the specification states it fails: with the gate on, a GGA sentence of
  the talker \<open>GL\<close> with fix quality \<open>1\<close> is written to client \<open>1\<close>, and so is a
  \<open>$GPGGA\<close> line that has no 7th field.\<close>

theorem rtk_fixed_gate_counterexample:
  "TCP_ONLY_RTK_FIXED rtk_env \<and>
   NMEA_SUFFIX ''$GLGGA,123519,4807.038,N,01131.000,E,1,08,0.9,545.4,M,46.9,M,,*47'' = ''GGA'' \<and>
   split ''$GLGGA,123519,4807.038,N,01131.000,E,1,08,0.9,545.4,M,46.9,M,,*47'' ! 6 = ''1'' \<and>
   sent (sockets (serial_data rtk_env two_clients
      ''$GLGGA,123519,4807.038,N,01131.000,E,1,08,0.9,545.4,M,46.9,M,,*47'') 1)
     = [''$GLGGA,123519,4807.038,N,01131.000,E,1,08,0.9,545.4,M,46.9,M,,*47\<newline>''] \<and>
   NMEA_SUFFIX ''$GPGGA,123519'' = ''GGA'' \<and>
   length (split ''$GPGGA,123519'') = 2 \<and>
   sent (sockets (serial_data rtk_env two_clients ''$GPGGA,123519'') 1) = [''$GPGGA,123519\<newline>'']"
proof -
  let ?d = "''$GLGGA,123519,4807.038,N,01131.000,E,1,08,0.9,545.4,M,46.9,M,,*47''"
  have g: "\<not> rtk_gate_returns ?d"
    by (simp add: rtk_gate_returns_def startsWith_def)
  have g': "\<not> rtk_gate_returns ''$GPGGA,123519''"
    by (simp add: rtk_gate_returns_def startsWith_def)
  have s: "NMEA_SUFFIX ?d = ''GGA''" "NMEA_SUFFIX ''$GPGGA,123519'' = ''GGA''"
    by (simp_all add: NMEA_SUFFIX_take_drop)
  have f: "split ?d ! 6 = ''1''" "length (split ''$GPGGA,123519'') = 2"
    by simp_all
  have "sent (sockets (serial_data rtk_env two_clients ?d) 1) = [?d @ ''\<newline>'']"
    unfolding serial_data_sockets
    by (simp add: g s example_envs array_includes_def two_clients_def forEach_write_def
        socket_write_def)
  moreover have "sent (sockets (serial_data rtk_env two_clients ''$GPGGA,123519'') 1)
                   = [''$GPGGA,123519'' @ ''\<newline>'']"
    unfolding serial_data_sockets
    by (simp add: g' s example_envs array_includes_def two_clients_def forEach_write_def
        socket_write_def)
  ultimately show ?thesis
    using s f example_envs(2) by simp
qed

subsection \<open>The allow list\<close>

text \<open>
  Claim C2. The sentence type of a line is the three characters at positions 4 to 6. A line
  whose type is not in the allow list is not broadcast: the handler returns with the state
  unchanged. With the allow list \<open>{GGA, RMC, VTG}\<close> and the RTK gate off, every GSV line is
  dropped and every GGA line is written, with a line feed, to every writable client,
  whatever its fix-quality field.
\<close>

theorem allow_list_filter:
  "NMEA_SUFFIX data = take 3 (drop 3 data) \<and>
   (NMEA_SUFFIX data \<notin> set (TCP_ALLOW_LIST env) \<longrightarrow> serial_data env st data = st) \<and>
   (set (TCP_ALLOW_LIST env) = {''GGA'', ''RMC'', ''VTG''} \<and> \<not> TCP_ONLY_RTK_FIXED env \<longrightarrow>
      (NMEA_SUFFIX data = ''GSV'' \<longrightarrow> serial_data env st data = st) \<and>
      (NMEA_SUFFIX data = ''GGA'' \<and> distinct (clients st) \<longrightarrow>
         (\<forall>s \<in> set (clients st). writable (sockets st s) \<longrightarrow>
            sent (sockets (serial_data env st data) s)
              = sent (sockets st s) @ [data @ ''\<newline>''])))"
proof (intro conjI impI ballI)
  show "NMEA_SUFFIX data = take 3 (drop 3 data)"
    by (rule NMEA_SUFFIX_take_drop)
next
  assume "NMEA_SUFFIX data \<notin> set (TCP_ALLOW_LIST env)"
  then show "serial_data env st data = st"
    by (simp add: serial_data_dropped array_includes_def)
next
  assume cfg: "set (TCP_ALLOW_LIST env) = {''GGA'', ''RMC'', ''VTG''} \<and> \<not> TCP_ONLY_RTK_FIXED env"
    and "NMEA_SUFFIX data = ''GSV''"
  then have "\<not> array_includes (TCP_ALLOW_LIST env) (NMEA_SUFFIX data)"
    by (simp add: array_includes_def)
  then show "serial_data env st data = st"
    by (rule serial_data_dropped)
next
  fix s
  assume cfg: "set (TCP_ALLOW_LIST env) = {''GGA'', ''RMC'', ''VTG''} \<and> \<not> TCP_ONLY_RTK_FIXED env"
    and gga: "NMEA_SUFFIX data = ''GGA'' \<and> distinct (clients st)"
    and s: "s \<in> set (clients st)" and w: "writable (sockets st s)"
  from cfg gga have "array_includes (TCP_ALLOW_LIST env) (NMEA_SUFFIX data)"
    by (simp add: array_includes_def)
  with cfg have "sockets (serial_data env st data)
                   = forEach_write (clients st) (data @ ''\<newline>'') (sockets st)"
    by (simp add: serial_data_sockets)
  with gga s w
  show "sent (sockets (serial_data env st data) s) = sent (sockets st s) @ [data @ ''\<newline>'']"
    by (simp add: forEach_write_distinct socket_write_def)
qed

theorem allow_list_filter_witness:
  "serial_data default_env two_clients ''$GPGSV,3,1,11,03,03,111,00'' = two_clients \<and>
   sent (sockets (serial_data default_env two_clients
           ''$GPGGA,123519,4807.038,N,01131.000,E,1,08,0.9,545.4,M,46.9,M,,*47'') 2)
     = [''$GPGGA,123519,4807.038,N,01131.000,E,1,08,0.9,545.4,M,46.9,M,,*47\<newline>'']"
proof -
  have gsv: "NMEA_SUFFIX ''$GPGSV,3,1,11,03,03,111,00'' = ''GSV''"
    by (simp add: NMEA_SUFFIX_take_drop)
  have gga: "NMEA_SUFFIX ''$GPGGA,123519,4807.038,N,01131.000,E,1,08,0.9,545.4,M,46.9,M,,*47'' = ''GGA''"
    by (simp add: NMEA_SUFFIX_take_drop)
  have st: "distinct (clients two_clients) \<and> 2 \<in> set (clients two_clients) \<and>
            writable (sockets two_clients 2) \<and> sent (sockets two_clients 2) = []"
    by (simp add: two_clients_def)
  from allow_list_filter [of "''$GPGSV,3,1,11,03,03,111,00''" default_env two_clients]
    default_env_config gsv
  have a: "serial_data default_env two_clients ''$GPGSV,3,1,11,03,03,111,00'' = two_clients"
    by blast
  from allow_list_filter
         [of "''$GPGGA,123519,4807.038,N,01131.000,E,1,08,0.9,545.4,M,46.9,M,,*47''"
             default_env two_clients]
    default_env_config gga st
  have b: "sent (sockets (serial_data default_env two_clients
                   ''$GPGGA,123519,4807.038,N,01131.000,E,1,08,0.9,545.4,M,46.9,M,,*47'') 2)
             = sent (sockets two_clients 2)
               @ [''$GPGGA,123519,4807.038,N,01131.000,E,1,08,0.9,545.4,M,46.9,M,,*47'' @ ''\<newline>'']"
    by blast
  from a b st show ?thesis by simp
qed

subsection \<open>The position tracker\<close>

text \<open>
  Claim C3, as the code has it. The tracker comes after the allow list and before the RTK
  gate. A line whose type is not allowed leaves \<open>latestGGA\<close> unchanged, and so does a line
  that does not start with \<open>$GPGGA\<close> or \<open>$GNGGA\<close> or has fewer than 15 fields. A
  \<open>$GPGGA\<close>/\<open>$GNGGA\<close> line with at least 15 fields, GGA being allowed, replaces
  \<open>latestGGA\<close> by its parse, whatever its fix quality and whatever the gate then decides.
\<close>

theorem tracker_before_gate:
  "(NMEA_SUFFIX data \<notin> set (TCP_ALLOW_LIST env)
      \<longrightarrow> latestGGA (serial_data env st data) = latestGGA st) \<and>
   (\<not> (startsWith data ''$GPGGA'' \<or> startsWith data ''$GNGGA'') \<or> length (split data) < 15
      \<longrightarrow> latestGGA (serial_data env st data) = latestGGA st) \<and>
   (''GGA'' \<in> set (TCP_ALLOW_LIST env) \<and>
    (startsWith data ''$GPGGA'' \<or> startsWith data ''$GNGGA'') \<and> 15 \<le> length (split data)
      \<longrightarrow> (\<exists>g. parseGGA data = Some g \<and> fix' g = split data ! 6 \<and>
                latestGGA (serial_data env st data) = Some (g\<lparr>raw := Some data\<rparr>)))"
proof (intro conjI impI)
  assume "NMEA_SUFFIX data \<notin> set (TCP_ALLOW_LIST env)"
  then show "latestGGA (serial_data env st data) = latestGGA st"
    by (simp add: serial_data_latestGGA array_includes_def)
next
  assume "\<not> (startsWith data ''$GPGGA'' \<or> startsWith data ''$GNGGA'') \<or> length (split data) < 15"
  then have "track_gga st data = st"
    by (auto simp add: track_gga_def parseGGA_None [symmetric])
  then show "latestGGA (serial_data env st data) = latestGGA st"
    by (simp add: serial_data_latestGGA)
next
  assume h: "''GGA'' \<in> set (TCP_ALLOW_LIST env) \<and>
             (startsWith data ''$GPGGA'' \<or> startsWith data ''$GNGGA'') \<and> 15 \<le> length (split data)"
  then have suffix: "NMEA_SUFFIX data = ''GGA''"
    by (auto dest: startsWith_suffix)
  from h obtain g where g: "parseGGA data = Some g"
    using parseGGA_None [of data] by (cases "parseGGA data") auto
  with h have "latestGGA (track_gga st data) = Some (g\<lparr>raw := Some data\<rparr>)"
    by (auto simp add: track_gga_def)
  with h suffix g parseGGA_fix [OF g]
  show "\<exists>g. parseGGA data = Some g \<and> fix' g = split data ! 6 \<and>
            latestGGA (serial_data env st data) = Some (g\<lparr>raw := Some data\<rparr>)"
    by (simp add: serial_data_latestGGA array_includes_def)
qed

theorem tracker_before_gate_witness:
  "latestGGA (serial_data rtk_env two_clients ''$GPGSV,3,1,11,03,03,111,00'') = latestGGA two_clients \<and>
   (\<exists>g. parseGGA ''$GPGGA,123519,4807.038,N,01131.000,E,1,08,0.9,545.4,M,46.9,M,,*47'' = Some g \<and>
        fix' g = ''1'' \<and>
        latestGGA (serial_data rtk_env two_clients
           ''$GPGGA,123519,4807.038,N,01131.000,E,1,08,0.9,545.4,M,46.9,M,,*47'')
          = Some (g\<lparr>raw := Some ''$GPGGA,123519,4807.038,N,01131.000,E,1,08,0.9,545.4,M,46.9,M,,*47''\<rparr>))"
proof -
  let ?d1 = "''$GPGGA,123519,4807.038,N,01131.000,E,1,08,0.9,545.4,M,46.9,M,,*47''"
  have gsv: "NMEA_SUFFIX ''$GPGSV,3,1,11,03,03,111,00'' \<notin> set (TCP_ALLOW_LIST rtk_env)"
    unfolding example_envs(3) by (simp add: NMEA_SUFFIX_take_drop)
  have p1: "''GGA'' \<in> set (TCP_ALLOW_LIST rtk_env) \<and>
            (startsWith ?d1 ''$GPGGA'' \<or> startsWith ?d1 ''$GNGGA'') \<and> 15 \<le> length (split ?d1)"
    unfolding split_fix1 example_envs(3) by (simp add: startsWith_def)
  have f: "split ?d1 ! 6 = ''1''"
    unfolding split_fix1 by simp
  from tracker_before_gate [of "''$GPGSV,3,1,11,03,03,111,00''" rtk_env two_clients] gsv
  have a: "latestGGA (serial_data rtk_env two_clients ''$GPGSV,3,1,11,03,03,111,00'')
             = latestGGA two_clients"
    by blast
  from tracker_before_gate [of ?d1 rtk_env two_clients] p1
  have "\<exists>g. parseGGA ?d1 = Some g \<and> fix' g = split ?d1 ! 6 \<and>
            latestGGA (serial_data rtk_env two_clients ?d1) = Some (g\<lparr>raw := Some ?d1\<rparr>)"
    by blast
  with a show ?thesis unfolding f by blast
qed

text \<open>The claim as the specification states it fails: with the gate on, the GGA sentence
  with fix quality \<open>1\<close> is not broadcast, and it replaces the stored fix.\<close>

theorem tracker_before_gate_counterexample:
  "TCP_ONLY_RTK_FIXED rtk_env \<and>
   split ''$GPGGA,123519,4807.038,N,01131.000,E,1,08,0.9,545.4,M,46.9,M,,*47'' ! 6 = ''1'' \<and>
   sockets (serial_data rtk_env two_clients
      ''$GPGGA,123519,4807.038,N,01131.000,E,1,08,0.9,545.4,M,46.9,M,,*47'') = sockets two_clients \<and>
   latestGGA two_clients = None \<and>
   latestGGA (serial_data rtk_env two_clients
      ''$GPGGA,123519,4807.038,N,01131.000,E,1,08,0.9,545.4,M,46.9,M,,*47'')
     = Some \<lparr> lat = Some (Num (423244246777489 / 8796093022208)),
              lon = Some (Num (6483306963568777 / 562949953421312)), fix' = ''1'',
              time = ''123519'', sats = Num 8,
              raw = Some ''$GPGGA,123519,4807.038,N,01131.000,E,1,08,0.9,545.4,M,46.9,M,,*47'' \<rparr>"
proof -
  let ?d1 = "''$GPGGA,123519,4807.038,N,01131.000,E,1,08,0.9,545.4,M,46.9,M,,*47''"
  have g: "rtk_gate_returns ?d1"
    unfolding rtk_gate_returns_def split_fix1 by (simp add: startsWith_def)
  have s: "NMEA_SUFFIX ?d1 = ''GGA''"
    by (simp add: NMEA_SUFFIX_take_drop)
  have f: "split ?d1 ! 6 = ''1''"
    unfolding split_fix1 by simp
  have t: "latestGGA (track_gga two_clients ?d1)
             = Some \<lparr> lat = Some (Num (423244246777489 / 8796093022208)),
              lon = Some (Num (6483306963568777 / 562949953421312)), fix' = ''1'',
                      time = ''123519'', sats = Num 8, raw = Some ?d1 \<rparr>"
    unfolding track_gga_def parseGGA_fix1 by (simp add: startsWith_def)
  have "sockets (serial_data rtk_env two_clients ?d1) = sockets two_clients"
    unfolding serial_data_sockets using g example_envs(2) by simp
  moreover have "latestGGA (serial_data rtk_env two_clients ?d1)
             = Some \<lparr> lat = Some (Num (423244246777489 / 8796093022208)),
              lon = Some (Num (6483306963568777 / 562949953421312)), fix' = ''1'',
                      time = ''123519'', sats = Num 8, raw = Some ?d1 \<rparr>"
    unfolding serial_data_latestGGA t using s example_envs(3) by (simp add: array_includes_def)
  moreover have "latestGGA two_clients = None"
    by (simp add: two_clients_def)
  ultimately show ?thesis
    using f example_envs(2) by simp
qed

subsection \<open>Lines that do not start with \<open>$\<close>\<close>

text \<open>
  Claim C4, as the code has it. The allow-list test reads the characters at positions 4 to
  6 of a line, whatever its first character is. A line that does not start with \<open>$\<close> is
  dropped when these characters are not in the allow list; when they are, it is written
  to every writable client, whatever the RTK setting, and the stored fix is left alone.
\<close>

theorem no_dollar_check:
  assumes "\<not> startsWith data ''$''"
  shows "serial_data env st data =
           (if take 3 (drop 3 data) \<in> set (TCP_ALLOW_LIST env)
            then st\<lparr>sockets := forEach_write (clients st) (data @ ''\<newline>'') (sockets st)\<rparr>
            else st) \<and>
         (take 3 (drop 3 data) \<in> set (TCP_ALLOW_LIST env) \<and> distinct (clients st) \<longrightarrow>
            (\<forall>s \<in> set (clients st). writable (sockets st s) \<longrightarrow>
               sent (sockets (serial_data env st data) s)
                 = sent (sockets st s) @ [data @ ''\<newline>'']))"
proof -
  have eq: "serial_data env st data =
           (if take 3 (drop 3 data) \<in> set (TCP_ALLOW_LIST env)
            then st\<lparr>sockets := forEach_write (clients st) (data @ ''\<newline>'') (sockets st)\<rparr>
            else st)"
    using assms
    by (simp add: serial_data_def not_dollar_track not_dollar_gate array_includes_def
        NMEA_SUFFIX_take_drop)
  have "sent (sockets (serial_data env st data) s) = sent (sockets st s) @ [data @ ''\<newline>'']"
    if "take 3 (drop 3 data) \<in> set (TCP_ALLOW_LIST env)" "distinct (clients st)"
      "s \<in> set (clients st)" "writable (sockets st s)" for s
    unfolding eq using that by (simp add: forEach_write_distinct socket_write_def)
  with eq show ?thesis by blast
qed

theorem no_dollar_check_witness:
  "\<not> startsWith ''!GNGGA,123519'' ''$'' \<and>
   serial_data rtk_env two_clients ''!GNGGA,123519''
     = two_clients\<lparr>sockets := forEach_write [1, 2] ''!GNGGA,123519\<newline>'' (sockets two_clients)\<rparr> \<and>
   sent (sockets (serial_data rtk_env two_clients ''!GNGGA,123519'') 1) = [''!GNGGA,123519\<newline>''] \<and>
   serial_data rtk_env two_clients ''!GNGSV,3,1'' = two_clients"
proof -
  have a: "\<not> startsWith ''!GNGGA,123519'' ''$''" and b: "\<not> startsWith ''!GNGSV,3,1'' ''$''"
    by (simp_all add: startsWith_def)
  note l = example_envs(3)
  have c: "clients two_clients = [1, 2]"
    by (simp add: two_clients_def)
  have st: "take 3 (drop 3 ''!GNGGA,123519'') \<in> set (TCP_ALLOW_LIST rtk_env) \<and>
            distinct (clients two_clients)" "1 \<in> set (clients two_clients)"
    "writable (sockets two_clients 1)" "sent (sockets two_clients 1) = []"
    unfolding l by (simp_all add: two_clients_def)
  note gga = no_dollar_check [OF a, of rtk_env two_clients]
  from gga have x: "serial_data rtk_env two_clients ''!GNGGA,123519''
     = two_clients\<lparr>sockets := forEach_write [1, 2] ''!GNGGA,123519\<newline>'' (sockets two_clients)\<rparr>"
    unfolding l c by simp
  from gga st have "sent (sockets (serial_data rtk_env two_clients ''!GNGGA,123519'') 1)
     = sent (sockets two_clients 1) @ [''!GNGGA,123519'' @ ''\<newline>'']"
    by blast
  then have y: "sent (sockets (serial_data rtk_env two_clients ''!GNGGA,123519'') 1)
     = [''!GNGGA,123519\<newline>'']"
    using st(4) by simp
  from no_dollar_check [OF b, of rtk_env two_clients]
  have z: "serial_data rtk_env two_clients ''!GNGSV,3,1'' = two_clients"
    unfolding l by simp
  from a x y z show ?thesis by blast
qed

text \<open>The claim as the specification states it fails: the line \<open>!GNGGA,123519\<close> does not
  start with \<open>$\<close>, and with the default configuration client \<open>1\<close> receives it.\<close>

theorem no_dollar_check_counterexample:
  "\<not> startsWith ''!GNGGA,123519'' ''$'' \<and>
   sent (sockets (serial_data default_env two_clients ''!GNGGA,123519'') 1)
     = [''!GNGGA,123519\<newline>'']"
  by (simp add: serial_data_sockets default_allow array_includes_def NMEA_SUFFIX_take_drop
      startsWith_def example_envs two_clients_def forEach_write_def socket_write_def)

subsection \<open>Sentences that do not parse\<close>

text \<open>
  Claim C5, as the code has it. \<open>parseGGA\<close> returns \<open>null\<close> exactly when the sentence has
  fewer than 15 fields. With 15 fields or more it returns a fix, whose \<open>lat\<close> (\<open>lon\<close>) is
  \<open>null\<close> exactly when the latitude (longitude) field is empty or shorter than 4
  characters. A line with fewer than 15 fields never replaces \<open>latestGGA\<close>; it is written
  to the writable clients exactly when its type is allowed and the RTK block does not
  return; and every forwarded line after it reaches every writable client.
\<close>

theorem gga_parse_failure:
  "(parseGGA data = None \<longleftrightarrow> length (split data) < 15) \<and>
   (15 \<le> length (split data) \<longrightarrow>
      (\<exists>g. parseGGA data = Some g \<and>
           (lat g = None \<longleftrightarrow> length (split data ! 2) < 4) \<and>
           (lon g = None \<longleftrightarrow> length (split data ! 4) < 4))) \<and>
   (length (split data) < 15 \<longrightarrow> latestGGA (serial_data env st data) = latestGGA st) \<and>
   (length (split data) < 15 \<and> distinct (clients st) \<longrightarrow>
      (\<forall>s \<in> set (clients st). writable (sockets st s) \<longrightarrow>
         sent (sockets (serial_data env st data) s)
           = (if NMEA_SUFFIX data \<in> set (TCP_ALLOW_LIST env) \<and>
                 \<not> (TCP_ONLY_RTK_FIXED env \<and> rtk_gate_returns data)
              then sent (sockets st s) @ [data @ ''\<newline>''] else sent (sockets st s)))) \<and>
   (length (split data) < 15 \<and> distinct (clients st) \<and>
    (\<forall>d \<in> set rest. array_includes (TCP_ALLOW_LIST env) (NMEA_SUFFIX d) \<and>
                      \<not> (TCP_ONLY_RTK_FIXED env \<and> rtk_gate_returns d)) \<longrightarrow>
      (\<forall>s \<in> set (clients st). writable (sockets st s) \<longrightarrow>
         sent (sockets (serial_lines env st (data # rest)) s)
           = sent (sockets (serial_data env st data) s) @ map (\<lambda>d. d @ ''\<newline>'') rest))"
proof (intro conjI impI ballI)
  show "parseGGA data = None \<longleftrightarrow> length (split data) < 15"
    by (rule parseGGA_None)
next
  assume "15 \<le> length (split data)"
  then obtain g where g: "parseGGA data = Some g"
    using parseGGA_None [of data] by (cases "parseGGA data") auto
  show "\<exists>g. parseGGA data = Some g \<and>
           (lat g = None \<longleftrightarrow> length (split data ! 2) < 4) \<and>
           (lon g = None \<longleftrightarrow> length (split data ! 4) < 4)"
    by (rule exI [of _ g]) (use g parseGGA_coords [OF g] in simp)
next
  assume "length (split data) < 15"
  then have "parseGGA data = None"
    by (simp only: parseGGA_None)
  then have "track_gga st data = st"
    by (simp add: track_gga_def)
  then show "latestGGA (serial_data env st data) = latestGGA st"
    by (simp add: serial_data_latestGGA)
next
  fix s
  assume h: "length (split data) < 15 \<and> distinct (clients st)"
    and s: "s \<in> set (clients st)" and w: "writable (sockets st s)"
  with h s w
  show "sent (sockets (serial_data env st data) s)
           = (if NMEA_SUFFIX data \<in> set (TCP_ALLOW_LIST env) \<and>
                 \<not> (TCP_ONLY_RTK_FIXED env \<and> rtk_gate_returns data)
              then sent (sockets st s) @ [data @ ''\<newline>''] else sent (sockets st s))"
    by (simp add: serial_data_sockets array_includes_def forEach_write_distinct socket_write_def)
next
  fix s
  assume h: "length (split data) < 15 \<and> distinct (clients st) \<and>
    (\<forall>d \<in> set rest. array_includes (TCP_ALLOW_LIST env) (NMEA_SUFFIX d) \<and>
                      \<not> (TCP_ONLY_RTK_FIXED env \<and> rtk_gate_returns d))"
    and s: "s \<in> set (clients st)" and w: "writable (sockets st s)"
  let ?st = "serial_data env st data"
  from h s w have inv: "distinct (clients ?st)" "s \<in> set (clients ?st)" "writable (sockets ?st s)"
    by (simp_all add: serial_data_clients serial_data_writable)
  from h have fw: "\<forall>d \<in> set rest. array_includes (TCP_ALLOW_LIST env) (NMEA_SUFFIX d) \<and>
                      \<not> (TCP_ONLY_RTK_FIXED env \<and> rtk_gate_returns d)"
    by simp
  show "sent (sockets (serial_lines env st (data # rest)) s)
           = sent (sockets ?st s) @ map (\<lambda>d. d @ ''\<newline>'') rest"
    unfolding serial_lines_Cons by (rule serial_lines_sent [OF inv fw])
qed

theorem gga_parse_failure_witness:
  "latestGGA (serial_data default_env two_clients ''$GPGGA,123519,4807.038'') = latestGGA two_clients \<and>
   sent (sockets (serial_data default_env two_clients ''$GPGGA,123519,4807.038'') 1)
     = [''$GPGGA,123519,4807.038\<newline>''] \<and>
   sent (sockets (serial_lines default_env two_clients
           [''$GPGGA,123519,4807.038'', ''$GPRMC,2'', ''$GPVTG,3'']) 1)
     = [''$GPGGA,123519,4807.038\<newline>'', ''$GPRMC,2\<newline>'', ''$GPVTG,3\<newline>''] \<and>
   (\<exists>g. parseGGA ''$GPGGA,123519,,,,,0,00,,,,,,,*66'' = Some g \<and> lat g = None \<and> lon g = None)"
proof -
  let ?d = "''$GPGGA,123519,4807.038''"
  let ?e = "''$GPGGA,123519,,,,,0,00,,,,,,,*66''"
  have l: "length (split ?d) < 15"
    by simp
  have fwd: "NMEA_SUFFIX ?d \<in> set (TCP_ALLOW_LIST default_env) \<and>
           \<not> (TCP_ONLY_RTK_FIXED default_env \<and> rtk_gate_returns ?d)"
    unfolding default_allow by (simp add: NMEA_SUFFIX_take_drop example_envs)
  have st: "distinct (clients two_clients)" "1 \<in> set (clients two_clients)"
    "writable (sockets two_clients 1)" "sent (sockets two_clients 1) = []"
    by (simp_all add: two_clients_def)
  have rest: "\<forall>d \<in> set [''$GPRMC,2'', ''$GPVTG,3''].
                array_includes (TCP_ALLOW_LIST default_env) (NMEA_SUFFIX d) \<and>
                \<not> (TCP_ONLY_RTK_FIXED default_env \<and> rtk_gate_returns d)"
    unfolding default_allow
    by (simp add: array_includes_def NMEA_SUFFIX_take_drop example_envs)
  have e: "15 \<le> length (split ?e) \<and> length (split ?e ! 2) < 4 \<and> length (split ?e ! 4) < 4"
    unfolding split_nofix by simp
  note inst = gga_parse_failure [of ?d default_env two_clients "[''$GPRMC,2'', ''$GPVTG,3'']"]
  from inst l
  have a: "latestGGA (serial_data default_env two_clients ?d) = latestGGA two_clients"
    by blast
  from inst l st(1-3)
  have "sent (sockets (serial_data default_env two_clients ?d) 1)
          = (if NMEA_SUFFIX ?d \<in> set (TCP_ALLOW_LIST default_env) \<and>
                \<not> (TCP_ONLY_RTK_FIXED default_env \<and> rtk_gate_returns ?d)
             then sent (sockets two_clients 1) @ [?d @ ''\<newline>'']
             else sent (sockets two_clients 1))"
    by blast
  with fwd st(4)
  have b: "sent (sockets (serial_data default_env two_clients ?d) 1) = [''$GPGGA,123519,4807.038\<newline>'']"
    by simp
  from inst l st(1-3) rest
  have "sent (sockets (serial_lines default_env two_clients [?d, ''$GPRMC,2'', ''$GPVTG,3'']) 1)
          = sent (sockets (serial_data default_env two_clients ?d) 1)
            @ map (\<lambda>d. d @ ''\<newline>'') [''$GPRMC,2'', ''$GPVTG,3'']"
    by blast
  with b
  have c: "sent (sockets (serial_lines default_env two_clients [?d, ''$GPRMC,2'', ''$GPVTG,3'']) 1)
             = [''$GPGGA,123519,4807.038\<newline>'', ''$GPRMC,2\<newline>'', ''$GPVTG,3\<newline>'']"
    by simp
  from gga_parse_failure [of ?e default_env two_clients "[]"] e
  have d: "\<exists>g. parseGGA ?e = Some g \<and> lat g = None \<and> lon g = None"
    by blast
  from a b c d show ?thesis by blast
qed

text \<open>The claim as the specification states it fails twice. A \<open>$GPGGA\<close> sentence with 15
  fields and empty latitude and longitude is parsed to a fix with \<open>null\<close> coordinates, and
  it replaces the fix stored by the sentence before it. And the type alone does not make a
  sentence that fails to parse eligible: with the gate on, a \<open>$GPGGA\<close> line of 7 fields
  with fix quality \<open>1\<close> is written to no client.\<close>

theorem gga_parse_failure_counterexample:
  "split ''$GPGGA,123519,,,,,0,00,,,,,,,*66'' ! 2 = [] \<and>
   split ''$GPGGA,123519,,,,,0,00,,,,,,,*66'' ! 4 = [] \<and>
   parseGGA ''$GPGGA,123519,,,,,0,00,,,,,,,*66''
     = Some \<lparr> lat = None, lon = None, fix' = ''0'', time = ''123519'', sats = Num 0, raw = None \<rparr> \<and>
   latestGGA (serial_data default_env two_clients
      ''$GPGGA,123519,4807.038,N,01131.000,E,1,08,0.9,545.4,M,46.9,M,,*47'')
     = Some \<lparr> lat = Some (Num (423244246777489 / 8796093022208)),
              lon = Some (Num (6483306963568777 / 562949953421312)), fix' = ''1'',
              time = ''123519'', sats = Num 8,
              raw = Some ''$GPGGA,123519,4807.038,N,01131.000,E,1,08,0.9,545.4,M,46.9,M,,*47'' \<rparr> \<and>
   latestGGA (serial_data default_env
      (serial_data default_env two_clients
         ''$GPGGA,123519,4807.038,N,01131.000,E,1,08,0.9,545.4,M,46.9,M,,*47'')
      ''$GPGGA,123519,,,,,0,00,,,,,,,*66'')
     = Some \<lparr> lat = None, lon = None, fix' = ''0'', time = ''123519'', sats = Num 0,
              raw = Some ''$GPGGA,123519,,,,,0,00,,,,,,,*66'' \<rparr> \<and>
   TCP_ONLY_RTK_FIXED rtk_env \<and>
   NMEA_SUFFIX ''$GPGGA,1,2,3,4,5,1'' \<in> set (TCP_ALLOW_LIST rtk_env) \<and>
   parseGGA ''$GPGGA,1,2,3,4,5,1'' = None \<and>
   sockets (serial_data rtk_env two_clients ''$GPGGA,1,2,3,4,5,1'') = sockets two_clients \<and>
   writable (sockets two_clients 1)"
proof -
  let ?d1 = "''$GPGGA,123519,4807.038,N,01131.000,E,1,08,0.9,545.4,M,46.9,M,,*47''"
  let ?e = "''$GPGGA,123519,,,,,0,00,,,,,,,*66''"
  let ?s = "''$GPGGA,1,2,3,4,5,1''"
  have s: "array_includes (TCP_ALLOW_LIST default_env) (NMEA_SUFFIX ?d1)"
    "array_includes (TCP_ALLOW_LIST default_env) (NMEA_SUFFIX ?e)"
    unfolding default_allow by (simp_all add: NMEA_SUFFIX_take_drop array_includes_def)
  have t1: "latestGGA (track_gga two_clients ?d1)
             = Some \<lparr> lat = Some (Num (423244246777489 / 8796093022208)),
                      lon = Some (Num (6483306963568777 / 562949953421312)), fix' = ''1'',
                      time = ''123519'', sats = Num 8, raw = Some ?d1 \<rparr>"
    unfolding track_gga_def parseGGA_fix1 by (simp add: startsWith_def)
  have t2: "latestGGA (track_gga st ?e)
             = Some \<lparr> lat = None, lon = None, fix' = ''0'', time = ''123519'', sats = Num 0,
                      raw = Some ?e \<rparr>" for st
    unfolding track_gga_def parseGGA_nofix by (simp add: startsWith_def)
  have f: "split ?e ! 2 = []" "split ?e ! 4 = []"
    unfolding split_nofix by simp_all
  have first: "split ?e ! 2 = [] \<and> split ?e ! 4 = [] \<and>
     parseGGA ?e = Some \<lparr> lat = None, lon = None, fix' = ''0'', time = ''123519'', sats = Num 0,
                           raw = None \<rparr> \<and>
     latestGGA (serial_data default_env two_clients ?d1)
       = Some \<lparr> lat = Some (Num (423244246777489 / 8796093022208)),
                lon = Some (Num (6483306963568777 / 562949953421312)), fix' = ''1'',
                time = ''123519'', sats = Num 8, raw = Some ?d1 \<rparr> \<and>
     latestGGA (serial_data default_env (serial_data default_env two_clients ?d1) ?e)
       = Some \<lparr> lat = None, lon = None, fix' = ''0'', time = ''123519'', sats = Num 0,
                raw = Some ?e \<rparr>"
    unfolding serial_data_latestGGA using s t1 t2 f parseGGA_nofix by simp
  have g: "rtk_gate_returns ?s"
    by (simp add: rtk_gate_returns_def startsWith_def)
  have a: "NMEA_SUFFIX ?s \<in> set (TCP_ALLOW_LIST rtk_env)"
    unfolding example_envs(3) by (simp add: NMEA_SUFFIX_take_drop)
  have p: "parseGGA ?s = None"
    by (simp add: parseGGA_None)
  have d: "sockets (serial_data rtk_env two_clients ?s) = sockets two_clients"
    unfolding serial_data_sockets using g example_envs(2) by simp
  have w: "writable (sockets two_clients 1)"
    by (simp add: two_clients_def)
  from first a p d w example_envs(2) show ?thesis by blast
qed

subsection \<open>Coordinates\<close>

text \<open>
  Claim C6. A coordinate field shorter than 4 characters (the empty field too) decodes to
  \<open>null\<close>. A well-formed field, the degree digits (2 for \<open>N\<close>/\<open>S\<close>, 3 for \<open>E\<close>/\<open>W\<close>),
  two minute digits and, optionally, a point and the fraction digits, decodes to a double
  \<open>w\<close> for \<open>N\<close> and \<open>E\<close> and to \<open>-w\<close> for \<open>S\<close> and \<open>W\<close>, where \<open>w\<close> is degrees plus
  minutes over 60 computed in doubles: it is at most \<open>1/2^43\<close> away from the exact value.
  The field \<open>4916.45\<close> with \<open>N\<close> decodes to the double \<open>6934722457468491 / 2^47\<close>, which is
  less than \<open>1/10^8\<close> away from \<open>49.27416666\<close>.
\<close>

theorem parseNmeaCoord_decodes:
  "(length coord < 4 \<longrightarrow> parseNmeaCoord coord dir = None) \<and>
   (dir \<in> {''N'', ''S'', ''E'', ''W''} \<and>
    list_all isDigit deg \<and> length deg = (if dir = ''N'' \<or> dir = ''S'' then 2 else 3) \<and>
    list_all isDigit mi \<and> length mi = 2 \<and> list_all isDigit fr
      \<longrightarrow> (\<exists>w. 0 \<le> w \<and>
               \<bar>w - (of_nat (digitsVal deg)
                     + (of_nat (digitsVal mi) + of_nat (digitsVal fr) / 10 ^ length fr) / 60)\<bar>
                 \<le> 1 / 2 ^ 43 \<and>
               parseNmeaCoord (deg @ mi @ ''.'' @ fr) dir
                 = Some (Num (if dir = ''S'' \<or> dir = ''W'' then - w else w)))) \<and>
   (dir \<in> {''N'', ''S'', ''E'', ''W''} \<and>
    list_all isDigit deg \<and> length deg = (if dir = ''N'' \<or> dir = ''S'' then 2 else 3) \<and>
    list_all isDigit mi \<and> length mi = 2
      \<longrightarrow> (\<exists>w. 0 \<le> w \<and>
               \<bar>w - (of_nat (digitsVal deg) + of_nat (digitsVal mi) / 60)\<bar> \<le> 1 / 2 ^ 43 \<and>
               parseNmeaCoord (deg @ mi) dir
                 = Some (Num (if dir = ''S'' \<or> dir = ''W'' then - w else w)))) \<and>
   parseNmeaCoord ''4916.45'' ''N'' = Some (Num (6934722457468491 / 140737488355328)) \<and>
   \<bar>6934722457468491 / 140737488355328 - (49 + (1645 / 100) / 60 :: rat)\<bar> \<le> 1 / 2 ^ 43 \<and>
   \<bar>6934722457468491 / 140737488355328 - (4927416666 / 10 ^ 8 :: rat)\<bar> < 1 / 10 ^ 8"
proof (intro conjI impI)
  assume "length coord < 4"
  then show "parseNmeaCoord coord dir = None"
    by (simp add: parseNmeaCoord_def)
next
  assume h: "dir \<in> {''N'', ''S'', ''E'', ''W''} \<and>
    list_all isDigit deg \<and> length deg = (if dir = ''N'' \<or> dir = ''S'' then 2 else 3) \<and>
    list_all isDigit mi \<and> length mi = 2 \<and> list_all isDigit fr"
  then have "\<exists>w. 0 \<le> w \<and>
               \<bar>w - (of_nat (digitsVal deg)
                     + (of_nat (digitsVal mi) + of_nat (digitsVal fr) / 10 ^ length fr) / 60)\<bar>
                 \<le> 1 / 2 ^ 43 \<and>
               parseNmeaCoord (deg @ mi @ CHR ''.'' # fr) dir
                 = Some (Num (if dir = ''S'' \<or> dir = ''W'' then - w else w))"
    by (intro parseNmeaCoord_wellformed) simp_all
  then show "\<exists>w. 0 \<le> w \<and>
               \<bar>w - (of_nat (digitsVal deg)
                     + (of_nat (digitsVal mi) + of_nat (digitsVal fr) / 10 ^ length fr) / 60)\<bar>
                 \<le> 1 / 2 ^ 43 \<and>
               parseNmeaCoord (deg @ mi @ ''.'' @ fr) dir
                 = Some (Num (if dir = ''S'' \<or> dir = ''W'' then - w else w))"
    by simp
next
  assume h: "dir \<in> {''N'', ''S'', ''E'', ''W''} \<and>
    list_all isDigit deg \<and> length deg = (if dir = ''N'' \<or> dir = ''S'' then 2 else 3) \<and>
    list_all isDigit mi \<and> length mi = 2"
  then have "\<exists>w. 0 \<le> w \<and>
               \<bar>w - (of_nat (digitsVal deg)
                     + (of_nat (digitsVal mi) + of_nat (digitsVal []) / 10 ^ length ([]::string)) / 60)\<bar>
                 \<le> 1 / 2 ^ 43 \<and>
               parseNmeaCoord (deg @ mi @ []) dir
                 = Some (Num (if dir = ''S'' \<or> dir = ''W'' then - w else w))"
    by (intro parseNmeaCoord_wellformed) simp_all
  then show "\<exists>w. 0 \<le> w \<and>
               \<bar>w - (of_nat (digitsVal deg) + of_nat (digitsVal mi) / 60)\<bar> \<le> 1 / 2 ^ 43 \<and>
               parseNmeaCoord (deg @ mi) dir
                 = Some (Num (if dir = ''S'' \<or> dir = ''W'' then - w else w))"
    by (simp add: digitsVal_def)
next
  show "parseNmeaCoord ''4916.45'' ''N'' = Some (Num (6934722457468491 / 140737488355328))"
    by (rule parseNmeaCoord_examples)
next
  show "\<bar>6934722457468491 / 140737488355328 - (49 + (1645 / 100) / 60 :: rat)\<bar> \<le> 1 / 2 ^ 43"
    by simp
next
  show "\<bar>6934722457468491 / 140737488355328 - (4927416666 / 10 ^ 8 :: rat)\<bar> < 1 / 10 ^ 8"
    by simp
qed

theorem parseNmeaCoord_decodes_witness:
  "parseNmeaCoord ''491'' ''W'' = None \<and>
   parseNmeaCoord ''12311.12'' ''W'' = Some (Num (- (8668397207773599 / 70368744177664))) \<and>
   \<bar>8668397207773599 / 70368744177664 - (123 + (1112 / 100) / 60 :: rat)\<bar> \<le> 1 / 2 ^ 43"
proof -
  have v: "digitsVal ''123'' = 123" "digitsVal ''11'' = 11" "digitsVal ''12'' = 12"
    by (simp_all add: digitsVal_def digitVal_def)
  have h: "''W'' \<in> {''N'', ''S'', ''E'', ''W''} \<and>
    list_all isDigit ''123'' \<and> length ''123'' = (if ''W'' = ''N'' \<or> ''W'' = ''S'' then 2 else 3) \<and>
    list_all isDigit ''11'' \<and> length ''11'' = 2 \<and> list_all isDigit ''12''"
    by (simp add: isDigit_def)
  have l: "length ''491'' < 4"
    by simp
  note inst = parseNmeaCoord_decodes [of "''491''" "''W''" "''123''" "''11''" "''12''"]
  from inst l have a: "parseNmeaCoord ''491'' ''W'' = None"
    by blast
  from inst h
  obtain w where w: "\<bar>w - (of_nat (digitsVal ''123'')
                     + (of_nat (digitsVal ''11'') + of_nat (digitsVal ''12'') / 10 ^ length ''12'') / 60)\<bar>
                 \<le> 1 / 2 ^ 43"
    "parseNmeaCoord (''123'' @ ''11'' @ ''.'' @ ''12'') ''W''
       = Some (Num (if ''W'' = ''S'' \<or> ''W'' = ''W'' then - w else w))"
    by blast
  from w(2) have "w = 8668397207773599 / 70368744177664"
    using parseNmeaCoord_examples(4) by simp
  with w(1) a parseNmeaCoord_examples(4) show ?thesis
    unfolding v by simp
qed

subsection \<open>The connection listener\<close>



subsection \<open>Broadcast and removal\<close>

text \<open>
  Claim C8. \<open>socket.write\<close> hands the line to the socket and does not throw; a failed
  write shows as a later \<open>'error'\<close> event of that socket. A broadcast appends the line and
  a line feed to every writable client and changes no other socket: what one socket gets
  depends on that socket alone. The \<open>'error'\<close> listener removes its socket \<open>k\<close> from
  \<open>clients\<close> and touches no other client; every other writable client then receives every
  following line that is forwarded. Removing a socket that is not in \<open>clients\<close> changes
  nothing, so the \<open>'close'\<close> that follows an \<open>'error'\<close>, or a second event, is a no-op.
\<close>

theorem broadcast_independent:
  "(distinct (clients st) \<and> array_includes (TCP_ALLOW_LIST env) (NMEA_SUFFIX data) \<and>
    \<not> (TCP_ONLY_RTK_FIXED env \<and> rtk_gate_returns data)
      \<longrightarrow> (\<forall>s. sockets (serial_data env st data) s =
                 (if s \<in> set (clients st) \<and> writable (sockets st s)
                  then (sockets st s)\<lparr>sent := sent (sockets st s) @ [data @ ''\<newline>'']\<rparr>
                  else sockets st s))) \<and>
   clients (socket_error st k) = remove1 k (clients st) \<and>
   (distinct (clients st) \<longrightarrow> k \<notin> set (clients (socket_error st k))) \<and>
   (\<forall>j. j \<noteq> k \<longrightarrow> (j \<in> set (clients (socket_error st k)) \<longleftrightarrow> j \<in> set (clients st)) \<and>
                  sockets (socket_error st k) j = sockets st j) \<and>
   (distinct (clients st) \<and> j \<in> set (clients st) \<and> j \<noteq> k \<and> writable (sockets st j) \<and>
    (\<forall>d \<in> set ds. array_includes (TCP_ALLOW_LIST env) (NMEA_SUFFIX d) \<and>
                    \<not> (TCP_ONLY_RTK_FIXED env \<and> rtk_gate_returns d))
      \<longrightarrow> sent (sockets (serial_lines env (socket_error st k) ds) j)
            = sent (sockets st j) @ map (\<lambda>d. d @ ''\<newline>'') ds) \<and>
   (k \<notin> set (clients st) \<longrightarrow>
      clients (socket_error st k) = clients st \<and> socket_close st k = st) \<and>
   (distinct (clients st) \<longrightarrow>
      socket_error (socket_error st k) k = socket_error st k \<and>
      socket_close (socket_error st k) k = socket_error st k \<and>
      socket_close (socket_close st k) k = socket_close st k)"
proof (intro conjI impI allI)
  fix s
  assume "distinct (clients st) \<and> array_includes (TCP_ALLOW_LIST env) (NMEA_SUFFIX data) \<and>
          \<not> (TCP_ONLY_RTK_FIXED env \<and> rtk_gate_returns data)"
  then show "sockets (serial_data env st data) s =
               (if s \<in> set (clients st) \<and> writable (sockets st s)
                then (sockets st s)\<lparr>sent := sent (sockets st s) @ [data @ ''\<newline>'']\<rparr>
                else sockets st s)"
    using serial_data_sent [of st env data s] by blast
next
  show "clients (socket_error st k) = remove1 k (clients st)"
    by (simp add: socket_error_def remove_client_remove1)
next
  assume "distinct (clients st)"
  then show "k \<notin> set (clients (socket_error st k))"
    by (simp add: socket_error_def remove_client_remove1)
next
  fix j
  assume "j \<noteq> k"
  then show "j \<in> set (clients (socket_error st k)) \<longleftrightarrow> j \<in> set (clients st)"
    by (simp add: socket_error_def remove_client_remove1)
next
  fix j
  assume "j \<noteq> k"
  then show "sockets (socket_error st k) j = sockets st j"
    by (simp add: socket_error_def destroy_def)
next
  assume h: "distinct (clients st) \<and> j \<in> set (clients st) \<and> j \<noteq> k \<and> writable (sockets st j) \<and>
    (\<forall>d \<in> set ds. array_includes (TCP_ALLOW_LIST env) (NMEA_SUFFIX d) \<and>
                    \<not> (TCP_ONLY_RTK_FIXED env \<and> rtk_gate_returns d))"
  let ?st = "socket_error st k"
  from h have inv: "distinct (clients ?st)" "j \<in> set (clients ?st)" "writable (sockets ?st j)"
    and same: "sent (sockets ?st j) = sent (sockets st j)"
    by (simp_all add: socket_error_def remove_client_remove1 destroy_def)
  from h have fw: "\<forall>d \<in> set ds. array_includes (TCP_ALLOW_LIST env) (NMEA_SUFFIX d) \<and>
                    \<not> (TCP_ONLY_RTK_FIXED env \<and> rtk_gate_returns d)"
    by simp
  show "sent (sockets (serial_lines env ?st ds) j) = sent (sockets st j) @ map (\<lambda>d. d @ ''\<newline>'') ds"
    using serial_lines_sent [OF inv fw] same by simp
next
  assume "k \<notin> set (clients st)"
  then show "clients (socket_error st k) = clients st"
    by (simp add: socket_error_def remove_client_remove1 remove1_idem)
next
  assume "k \<notin> set (clients st)"
  then show "socket_close st k = st"
    by (simp add: socket_close_def remove_client_remove1 remove1_idem)
next
  assume d: "distinct (clients st)"
  then have gone: "remove1 k (remove1 k (clients st)) = remove1 k (clients st)"
    by (simp add: remove1_idem)
  have "destroy (destroy (sockets st) k) k = destroy (sockets st) k"
    by (simp add: destroy_def)
  with gone show "socket_error (socket_error st k) k = socket_error st k"
    by (simp add: socket_error_def remove_client_remove1)
  from gone show "socket_close (socket_error st k) k = socket_error st k"
    by (simp add: socket_error_def socket_close_def remove_client_remove1)
  from gone show "socket_close (socket_close st k) k = socket_close st k"
    by (simp add: socket_close_def remove_client_remove1)
qed

theorem broadcast_independent_witness:
  "sockets (serial_data default_env two_clients ''$GPGGA,1'') 2
     = \<lparr> writable = True, sent = [''$GPGGA,1\<newline>''] \<rparr> \<and>
   clients (socket_error two_clients 1) = [2] \<and>
   sent (sockets (serial_lines default_env (socket_error two_clients 1) [''$GPGGA,1'', ''$GPRMC,2'']) 2)
     = [''$GPGGA,1\<newline>'', ''$GPRMC,2\<newline>''] \<and>
   socket_close (socket_error two_clients 1) 1 = socket_error two_clients 1"
proof -
  have fw: "array_includes (TCP_ALLOW_LIST default_env) (NMEA_SUFFIX ''$GPGGA,1'') \<and>
            \<not> (TCP_ONLY_RTK_FIXED default_env \<and> rtk_gate_returns ''$GPGGA,1'')"
    "array_includes (TCP_ALLOW_LIST default_env) (NMEA_SUFFIX ''$GPRMC,2'') \<and>
            \<not> (TCP_ONLY_RTK_FIXED default_env \<and> rtk_gate_returns ''$GPRMC,2'')"
    unfolding default_allow
    by (simp_all add: array_includes_def NMEA_SUFFIX_take_drop example_envs)
  have st: "distinct (clients two_clients)" "2 \<in> set (clients two_clients)" "(2::nat) \<noteq> 1"
    "writable (sockets two_clients 2)" "sent (sockets two_clients 2) = []"
    "sockets two_clients 2 = \<lparr> writable = True, sent = [] \<rparr>"
    "remove1 1 (clients two_clients) = [2]"
    by (simp_all add: two_clients_def)
  note inst = broadcast_independent
      [of two_clients default_env "''$GPGGA,1''" 1 2 "[''$GPGGA,1'', ''$GPRMC,2'']"]
  from inst fw(1) st(1)
  have "\<forall>s. sockets (serial_data default_env two_clients ''$GPGGA,1'') s =
             (if s \<in> set (clients two_clients) \<and> writable (sockets two_clients s)
              then (sockets two_clients s)
                     \<lparr>sent := sent (sockets two_clients s) @ [''$GPGGA,1'' @ ''\<newline>'']\<rparr>
              else sockets two_clients s)"
    by blast
  then have a: "sockets (serial_data default_env two_clients ''$GPGGA,1'') 2
                  = \<lparr> writable = True, sent = [''$GPGGA,1\<newline>''] \<rparr>"
    using st by simp
  from inst have b: "clients (socket_error two_clients 1) = [2]"
    using st(7) by simp
  have all: "\<forall>d \<in> set [''$GPGGA,1'', ''$GPRMC,2''].
               array_includes (TCP_ALLOW_LIST default_env) (NMEA_SUFFIX d) \<and>
               \<not> (TCP_ONLY_RTK_FIXED default_env \<and> rtk_gate_returns d)"
    using fw by simp
  from inst st(1-4) all
  have "sent (sockets (serial_lines default_env (socket_error two_clients 1)
                 [''$GPGGA,1'', ''$GPRMC,2'']) 2)
          = sent (sockets two_clients 2) @ map (\<lambda>d. d @ ''\<newline>'') [''$GPGGA,1'', ''$GPRMC,2'']"
    by blast
  then have c: "sent (sockets (serial_lines default_env (socket_error two_clients 1)
                 [''$GPGGA,1'', ''$GPRMC,2'']) 2) = [''$GPGGA,1\<newline>'', ''$GPRMC,2\<newline>'']"
    using st(5) by simp
  from inst st(1)
  have d: "socket_close (socket_error two_clients 1) 1 = socket_error two_clients 1"
    by blast
  from a b c d show ?thesis by blast
qed

subsection \<open>The NTRIP response\<close>

text \<open>
  Claim C9. On status 200 every chunk of the response body is written to the serial port,
  unchanged and in order. On any other status nothing is written to the serial port and
  the failure is logged with the status code and message.
\<close>

theorem ntrip_forwarding:
  "(statusCode = 200 \<longrightarrow>
      serial_written (ntrip_stream st statusCode statusMessage chunks)
        = serial_written st @ chunks) \<and>
   (statusCode \<noteq> 200 \<longrightarrow>
      serial_written (ntrip_stream st statusCode statusMessage chunks) = serial_written st \<and>
      log (ntrip_stream st statusCode statusMessage chunks)
        = log st @ [NtripConnectionFailed statusCode statusMessage])"
  by (simp add: ntrip_stream_def ntrip_response_def foldl_res_data)

theorem ntrip_forwarding_witness:
  "serial_written (ntrip_stream two_clients 200 ''OK'' [[0xD3, 0x00, 0x13], [0x3E, 0xD0]])
     = [[0xD3, 0x00, 0x13], [0x3E, 0xD0]] \<and>
   serial_written (ntrip_stream two_clients 401 ''Unauthorized'' [[0xD3, 0x00, 0x13]]) = [] \<and>
   log (ntrip_stream two_clients 401 ''Unauthorized'' [[0xD3, 0x00, 0x13]])
     = [NtripConnectionFailed 401 ''Unauthorized'']"
proof -
  have st: "serial_written two_clients = []" "log two_clients = []"
    by (simp_all add: two_clients_def)
  from ntrip_forwarding [of 200 two_clients "''OK''" "[[0xD3, 0x00, 0x13], [0x3E, 0xD0]]"]
    ntrip_forwarding [of 401 two_clients "''Unauthorized''" "[[0xD3, 0x00, 0x13]]"]
  show ?thesis
    unfolding st by simp
qed

subsection \<open>The default allow list\<close>

text \<open>
  Claim C10. The allow list is never empty: \<open>split\<close> gives at least one field. When
  \<open>TCP_ALLOW\<close> is unset or the empty string the list is \<open>RMC, VTG, GGA\<close>. So there is no
  setting under which the list is empty, and a line whose type is outside the list is always
  dropped: the handler returns with the state unchanged. No setting allows every line: a
  field of the list holds no comma, so a line with a comma among its characters 4 to 6 is
  dropped under every configuration.
\<close>

theorem allow_list_never_empty:
  "TCP_ALLOW_LIST env \<noteq> [] \<and>
   (env_TCP_ALLOW env = None \<or> env_TCP_ALLOW env = Some [] \<longrightarrow>
      TCP_ALLOW_LIST env = [''RMC'', ''VTG'', ''GGA'']) \<and>
   (NMEA_SUFFIX data \<notin> set (TCP_ALLOW_LIST env) \<longrightarrow> serial_data env st data = st) \<and>
   (CHR '','' \<in> set (NMEA_SUFFIX data) \<longrightarrow> serial_data env st data = st)"
proof (intro conjI impI)
  show "TCP_ALLOW_LIST env \<noteq> []"
    by (simp add: TCP_ALLOW_LIST_def split_not_Nil)
next
  assume "env_TCP_ALLOW env = None \<or> env_TCP_ALLOW env = Some []"
  then have "TCP_ALLOW env = ''RMC,VTG,GGA''"
    by (auto simp add: TCP_ALLOW_def)
  then show "TCP_ALLOW_LIST env = [''RMC'', ''VTG'', ''GGA'']"
    by (simp add: TCP_ALLOW_LIST_def)
next
  assume "NMEA_SUFFIX data \<notin> set (TCP_ALLOW_LIST env)"
  then show "serial_data env st data = st"
    by (simp add: serial_data_dropped array_includes_def)
next
  assume "CHR '','' \<in> set (NMEA_SUFFIX data)"
  then have "NMEA_SUFFIX data \<notin> set (TCP_ALLOW_LIST env)"
    unfolding TCP_ALLOW_LIST_def using split_no_comma [of "NMEA_SUFFIX data"] by blast
  then show "serial_data env st data = st"
    by (simp add: serial_data_dropped array_includes_def)
qed

theorem allow_list_never_empty_witness:
  "TCP_ALLOW_LIST (default_env\<lparr>env_TCP_ALLOW := Some []\<rparr>) = [''RMC'', ''VTG'', ''GGA''] \<and>
   serial_data (default_env\<lparr>env_TCP_ALLOW := Some []\<rparr>) two_clients ''$GPGSV,3,1,11,03,03,111,00''
     = two_clients \<and>
   serial_data (default_env\<lparr>env_TCP_ALLOW := Some ''GGA,RMC,VTG,GSV,GSA,GLL''\<rparr>) two_clients
      ''$GP,GGA''
     = two_clients"
proof -
  let ?env = "default_env\<lparr>env_TCP_ALLOW := Some []\<rparr>"
  let ?all = "default_env\<lparr>env_TCP_ALLOW := Some ''GGA,RMC,VTG,GSV,GSA,GLL''\<rparr>"
  have e: "env_TCP_ALLOW ?env = None \<or> env_TCP_ALLOW ?env = Some []"
    by simp
  from allow_list_never_empty [of ?env] e
  have l: "TCP_ALLOW_LIST ?env = [''RMC'', ''VTG'', ''GGA'']"
    by blast
  have "NMEA_SUFFIX ''$GPGSV,3,1,11,03,03,111,00'' \<notin> set (TCP_ALLOW_LIST ?env)"
    unfolding l by (simp add: NMEA_SUFFIX_take_drop)
  with allow_list_never_empty [of ?env "''$GPGSV,3,1,11,03,03,111,00''" two_clients]
  have a: "serial_data ?env two_clients ''$GPGSV,3,1,11,03,03,111,00'' = two_clients"
    by blast
  have "CHR '','' \<in> set (NMEA_SUFFIX ''$GP,GGA'')"
    by (simp add: NMEA_SUFFIX_take_drop)
  with allow_list_never_empty [of ?all "''$GP,GGA''" two_clients]
  have b: "serial_data ?all two_clients ''$GP,GGA'' = two_clients"
    by blast
  from l a b show ?thesis by blast
qed

end
